theory Spec2Isabelle
  imports Main "HOL-Library.Sublist"
begin

section \<open>Data model\<close>

text \<open>
  The gateway supervisor consists of the Durable Object \<open>GatewayState\<close> (first part of
  \<^verbatim>\<open>src/unnamed/part_000\<close>), the lifecycle engine it calls (second part of the same
  file) and an earlier revision of the engine, \<^verbatim>\<open>src/src/gateway/lifecycle.ts\<close>. Both
  revisions are modelled; the definitions taken from \<^verbatim>\<open>src/src/gateway/lifecycle.ts\<close>
  carry the suffix \<open>_legacy\<close> where the two revisions differ.

  A thrown JavaScript value is modelled by its message (\<open>e.message\<close>, or \<open>String(e)\<close>
  for a value that is not an \<open>Error\<close>). Console logging is not modelled.
\<close>

datatype error = Error (message: string)

text \<open>\<open>Process\<close> of the sandbox SDK, as far as the engine reads it: \<open>id\<close> and \<open>status\<close>.\<close>

record process =
  proc_id :: string
  proc_status :: string

text \<open>
  The result of \<open>proc.getLogs()\<close>; \<open>None\<close> is JavaScript's \<open>undefined\<close>. The engine
  trims \<open>stdout\<close>, and \<open>String.prototype.trim\<close> removes characters beyond the 8-bit range,
  so \<open>stdout\<close> is kept as the list of the UTF-16 code units of the JavaScript string.
  \<open>stderr\<close> is only tested for emptiness and copied into a message.
\<close>

type_synonym codeUnits = "nat list"

record logs =
  stdout :: "codeUnits option"
  stderr :: "string option"

text \<open>\<open>GatewayStateRef\<close> (part_000, lines 153-158); timestamps are milliseconds.\<close>

record GatewayStateRef =
  gatewayProcessId :: "string option"
  lastGatewayStartAttempt :: nat
  gatewayReady :: bool
  lastHealthCheck :: nat

text \<open>
  Every call of an external capability is recorded, in order, in a history. The
  arguments are the ones the engine passes: the port of \<open>containerFetch\<close>, the command
  and the \<open>env\<close> option of \<open>startProcess\<close>, the process id and the timeout of
  \<open>waitForProcess\<close>, the process id of \<open>getLogs\<close>, \<open>kill\<close> and \<open>waitForPort\<close> (with
  port and timeout), and the delay of a \<open>setTimeout\<close> sleep.
\<close>

datatype call =
    ContainerFetch nat
  | StartProcess string "(string \<times> string) list option"
  | WaitForProcess string nat
  | GetLogs string
  | ListProcesses
  | Kill string
  | FindExistingMoltbotProcess
  | WaitForPort string nat nat
  | MountR2Storage
  | Sleep nat

text \<open>
  How a \<open>containerFetch\<close> promise behaves: it settles after some milliseconds, rejected
  or resolved with a response of the given status, or it never settles.
\<close>

datatype fetch_result = Settles nat "error + nat" | Never

text \<open>
  The platform is everything the engine imports but does not define: the constants of
  \<^verbatim>\<open>../config\<close>, \<open>buildEnvVars(env)\<close>, the clock, and the answers of the sandbox and of
  the collaborators \<open>waitForProcess\<close>, \<open>findExistingMoltbotProcess\<close> and
  \<open>mountR2Storage\<close>. An answer may depend on everything that was called before, so it is a
  function of the history; a theorem for every platform is a theorem for every behaviour
  of the environment.
\<close>

text \<open>
  Modelled from the spec: the collaborators whose modules are not among the sources.
  \<open>findExistingMoltbotProcess\<close> (module \<^verbatim>\<open>./process\<close>) has the interface
  \<open>findBySignature() -> process|none\<close> of the spec's section 6, which has no error
  result; \<open>mountR2Storage\<close> (module \<^verbatim>\<open>./r2\<close>) is \<open>mount(config) -> success|error\<close>;
  \<open>waitForProcess\<close> (module \<^verbatim>\<open>./utils\<close>) and the methods of the sandbox and of a
  process may fail; \<open>buildEnvVars\<close> (module \<^verbatim>\<open>./env\<close>) is pure.
\<close>

record platform =
  MOLTBOT_PORT :: nat
  STARTUP_TIMEOUT_MS :: nat
  buildEnvVars :: "(string \<times> string) list"
  Date_now :: "call list \<Rightarrow> nat"
  containerFetch_result :: "call list \<Rightarrow> fetch_result"
  startProcess_result :: "call list \<Rightarrow> string \<Rightarrow> error + process"
  waitForProcess_result :: "call list \<Rightarrow> string \<Rightarrow> error + unit"
  getLogs_result :: "call list \<Rightarrow> string \<Rightarrow> error + logs"
  listProcesses_result :: "call list \<Rightarrow> error + process list"
  kill_result :: "call list \<Rightarrow> string \<Rightarrow> error + unit"
  findExistingMoltbotProcess_result :: "call list \<Rightarrow> process option"
  waitForPort_result :: "call list \<Rightarrow> string \<Rightarrow> error + unit"
  mountR2Storage_result :: "call list \<Rightarrow> error + unit"

section \<open>Asynchronous actions\<close>

text \<open>
  An awaited call either throws or returns a value, and extends the history.
  \<open>io_bind\<close> is sequencing by \<open>await\<close>, \<open>io_catch\<close> is \<open>try { ... } catch (e) { ... }\<close>.
\<close>

type_synonym 'a io = "call list \<Rightarrow> (error + 'a) \<times> call list"

definition io_return :: "'a \<Rightarrow> 'a io" where
  "io_return x h = (Inr x, h)"

definition io_throw :: "error \<Rightarrow> 'a io" where
  "io_throw e h = (Inl e, h)"

definition io_bind :: "'a io \<Rightarrow> ('a \<Rightarrow> 'b io) \<Rightarrow> 'b io" where
  "io_bind m f h = (case m h of (Inl e, h') \<Rightarrow> (Inl e, h') | (Inr x, h') \<Rightarrow> f x h')"

definition io_catch :: "'a io \<Rightarrow> (error \<Rightarrow> 'a io) \<Rightarrow> 'a io" where
  "io_catch m handler h = (case m h of (Inl e, h') \<Rightarrow> handler e h' | (Inr x, h') \<Rightarrow> (Inr x, h'))"

definition perform :: "call \<Rightarrow> (call list \<Rightarrow> error + 'a) \<Rightarrow> 'a io" where
  "perform c answer h = (answer h, h @ [c])"

definition startProcess :: "platform \<Rightarrow> string \<Rightarrow> (string \<times> string) list option \<Rightarrow> process io" where
  "startProcess P command env = perform (StartProcess command env) (\<lambda>h. startProcess_result P h command)"

definition waitForProcess :: "platform \<Rightarrow> process \<Rightarrow> nat \<Rightarrow> unit io" where
  "waitForProcess P proc timeoutMs =
     perform (WaitForProcess (proc_id proc) timeoutMs) (\<lambda>h. waitForProcess_result P h (proc_id proc))"

definition getLogs :: "platform \<Rightarrow> process \<Rightarrow> logs io" where
  "getLogs P proc = perform (GetLogs (proc_id proc)) (\<lambda>h. getLogs_result P h (proc_id proc))"

definition listProcesses :: "platform \<Rightarrow> process list io" where
  "listProcesses P = perform ListProcesses (listProcesses_result P)"

definition kill :: "platform \<Rightarrow> process \<Rightarrow> unit io" where
  "kill P proc = perform (Kill (proc_id proc)) (\<lambda>h. kill_result P h (proc_id proc))"

definition findExistingMoltbotProcess :: "platform \<Rightarrow> process option io" where
  "findExistingMoltbotProcess P =
     perform FindExistingMoltbotProcess (\<lambda>h. Inr (findExistingMoltbotProcess_result P h))"

definition waitForPort :: "platform \<Rightarrow> process \<Rightarrow> unit io" where
  "waitForPort P proc =
     perform (WaitForPort (proc_id proc) (MOLTBOT_PORT P) (STARTUP_TIMEOUT_MS P))
       (\<lambda>h. waitForPort_result P h (proc_id proc))"

definition mountR2Storage :: "platform \<Rightarrow> unit io" where
  "mountR2Storage P = perform MountR2Storage (mountR2Storage_result P)"

definition sleep :: "nat \<Rightarrow> unit io" where
  "sleep ms = perform (Sleep ms) (\<lambda>h. Inr ())"

section \<open>Constants of the engine\<close>

definition GATEWAY_WS_URL :: string where
  "GATEWAY_WS_URL = ''ws://localhost:18789''"

definition CLAWDBOT_DATA_DIR :: string where
  "CLAWDBOT_DATA_DIR = ''/root/.clawdbot''"

definition GATEWAY_LOCK_PATHS :: "string list" where
  "GATEWAY_LOCK_PATHS = [''/tmp/clawdbot-gateway.lock'', CLAWDBOT_DATA_DIR @ ''/gateway.lock'']"

definition STOP_GRACEFUL_TIMEOUT_MS :: nat where
  "STOP_GRACEFUL_TIMEOUT_MS = 10000"

definition HEALTH_CHECK_TIMEOUT_MS :: nat where
  "HEALTH_CHECK_TIMEOUT_MS = 500"

definition PORT_FREE_POLL_MS :: nat where
  "PORT_FREE_POLL_MS = 500"

definition PORT_FREE_DEADLINE_MS :: nat where
  "PORT_FREE_DEADLINE_MS = 15000"


section \<open>Health probe\<close>

text \<open>
  \<open>Promise.race([sandbox.containerFetch(...), timeout])\<close> (part_000, lines 178-183): the
  fetch wins when it settles before the timer fires; otherwise the race rejects with
  \<open>health check timeout\<close>.
\<close>

definition containerFetch_race :: "platform \<Rightarrow> nat \<Rightarrow> nat io" where
  "containerFetch_race P timeoutMs =
     perform (ContainerFetch (MOLTBOT_PORT P))
       (\<lambda>h. case containerFetch_result P h of
               Settles d r \<Rightarrow> if d < timeoutMs then r else Inl (Error ''health check timeout'')
             | Never \<Rightarrow> Inl (Error ''health check timeout''))"

text \<open>\<open>isGatewayHealthy\<close>, part_000 lines 175-189.\<close>

definition isGatewayHealthy :: "platform \<Rightarrow> bool io" where
  "isGatewayHealthy P =
     io_catch
       (io_bind (containerFetch_race P HEALTH_CHECK_TIMEOUT_MS)
          (\<lambda>status. io_return (200 \<le> status \<and> status < 500)))
       (\<lambda>e. io_return False)"

text \<open>
  \<open>isGatewayHealthy\<close> of \<^verbatim>\<open>src/src/gateway/lifecycle.ts\<close>, lines 31-40: the fetch is
  awaited without a timer, so the probe does not return while the fetch does not settle
  (\<open>None\<close>); any response status above 0 counts as healthy.
\<close>

definition isGatewayHealthy_legacy :: "platform \<Rightarrow> call list \<Rightarrow> ((error + bool) \<times> call list) option" where
  "isGatewayHealthy_legacy P h =
     (case containerFetch_result P h of
        Never \<Rightarrow> None
      | Settles d r \<Rightarrow>
          Some (io_catch
                  (io_bind (perform (ContainerFetch (MOLTBOT_PORT P)) (\<lambda>h. r))
                     (\<lambda>status. io_return (0 < status)))
                  (\<lambda>e. io_return False) h))"

section \<open>Lock files\<close>

text \<open>
  \<open>String.prototype.trim\<close> removes, at both ends, the code units that ECMAScript calls
  \<open>WhiteSpace\<close> or \<open>LineTerminator\<close>: U+0009 (tab), U+000A (line feed), U+000B (vertical
  tab), U+000C (form feed), U+000D (carriage return), U+0020 (space), U+00A0 (no-break
  space), U+1680, U+2000 to U+200A, U+2028 (line separator), U+2029 (paragraph
  separator), U+202F, U+205F, U+3000 and U+FEFF (byte order mark). All of them lie in
  the basic plane, so each is one code unit.
\<close>

definition isWhiteSpace :: "nat \<Rightarrow> bool" where
  "isWhiteSpace c \<longleftrightarrow>
     c \<in> set [0x0009, 0x000A, 0x000B, 0x000C, 0x000D, 0x0020, 0x00A0, 0x1680,
               0x2028, 0x2029, 0x202F, 0x205F, 0x3000, 0xFEFF] \<or>
     (0x2000 \<le> c \<and> c \<le> 0x200A)"

definition trim :: "codeUnits \<Rightarrow> codeUnits" where
  "trim s = rev (dropWhile isWhiteSpace (rev (dropWhile isWhiteSpace s)))"

text \<open>The code units of a string of 8-bit characters, such as a lock path.\<close>

definition codeUnitsOf :: "string \<Rightarrow> codeUnits" where
  "codeUnitsOf s = map of_char s"

text \<open>The two command templates of \<open>clearLockFiles\<close> (part_000, lines 200 and 206).\<close>

definition lockTestCommand :: "string \<Rightarrow> string" where
  \<open>lockTestCommand lockPath = ''test -f "'' @ lockPath @ ''" && echo "'' @ lockPath @ ''" || true''\<close>

definition lockRmCommand :: "string \<Rightarrow> string" where
  \<open>lockRmCommand lockPath = ''rm -f "'' @ lockPath @ ''"''\<close>

text \<open>\<open>logs.stdout?.trim() === lockPath\<close>, part_000 line 204.\<close>

definition lockFileReported :: "logs \<Rightarrow> string \<Rightarrow> bool" where
  "lockFileReported l lockPath \<longleftrightarrow> map_option trim (stdout l) = Some (codeUnitsOf lockPath)"

text \<open>The body of \<open>for (const lockPath of GATEWAY_LOCK_PATHS)\<close>, part_000 lines 198-209.\<close>

fun clearLockFiles_loop :: "platform \<Rightarrow> string list \<Rightarrow> unit io" where
  "clearLockFiles_loop P [] = io_return ()"
| "clearLockFiles_loop P (lockPath # rest) =
     io_bind (startProcess P (lockTestCommand lockPath) None) (\<lambda>proc.
     io_bind (waitForProcess P proc 3000) (\<lambda>_.
     io_bind (getLogs P proc) (\<lambda>logs.
     io_bind (if lockFileReported logs lockPath
              then io_bind (startProcess P (lockRmCommand lockPath) None)
                     (\<lambda>rmProc. waitForProcess P rmProc 3000)
              else io_return ()) (\<lambda>_.
     clearLockFiles_loop P rest))))"

text \<open>\<open>clearLockFiles\<close>, part_000 lines 196-213.\<close>

definition clearLockFiles :: "platform \<Rightarrow> unit io" where
  "clearLockFiles P = io_catch (clearLockFiles_loop P GATEWAY_LOCK_PATHS) (\<lambda>e. io_return ())"

text \<open>\<open>clearLockFiles\<close> of \<^verbatim>\<open>src/src/gateway/lifecycle.ts\<close>, lines 46-55: one \<open>rm -f\<close>.\<close>

definition lockSweepCommand_legacy :: string where
  \<open>lockSweepCommand_legacy =
     ''rm -f /tmp/clawdbot-gateway.lock "'' @ CLAWDBOT_DATA_DIR @ ''/gateway.lock" ''
       @ CLAWDBOT_DATA_DIR @ ''/*.lock 2>/dev/null || true''\<close>

definition clearLockFiles_legacy :: "platform \<Rightarrow> unit io" where
  "clearLockFiles_legacy P =
     io_catch
       (io_bind (startProcess P lockSweepCommand_legacy None) (\<lambda>proc. waitForProcess P proc 5000))
       (\<lambda>e. io_return ())"

section \<open>Stop\<close>

text \<open>
  \<open>stopGateway\<close>, part_000 lines 218-256 (the same text in
  \<^verbatim>\<open>src/src/gateway/lifecycle.ts\<close>, lines 60-98), one definition for each of its
  three numbered layers: the graceful stop (lines 222-230), the force kill by process id
  (lines 232-244) and the fallback on any gateway process (lines 246-255).
  \<open>if (processId)\<close> is false for \<open>null\<close> and for the empty string.
\<close>

definition stopCommand :: string where
  "stopCommand = ''clawdbot gateway stop --url '' @ GATEWAY_WS_URL"

definition stopGateway_graceful :: "platform \<Rightarrow> unit io" where
  "stopGateway_graceful P =
     io_catch
       (io_bind (startProcess P stopCommand None) (\<lambda>proc.
        io_bind (waitForProcess P proc STOP_GRACEFUL_TIMEOUT_MS) (\<lambda>_.
        io_bind (getLogs P proc) (\<lambda>l. io_return ()))))
       (\<lambda>e. io_return ())"

definition stopGateway_forceKill :: "platform \<Rightarrow> string option \<Rightarrow> unit io" where
  "stopGateway_forceKill P processId =
     (case processId of
        None \<Rightarrow> io_return ()
      | Some pid \<Rightarrow>
          if pid = [] then io_return ()
          else io_catch
                 (io_bind (listProcesses P) (\<lambda>processes.
                    case find (\<lambda>p. proc_id p = pid) processes of
                      None \<Rightarrow> io_return ()
                    | Some proc \<Rightarrow>
                        if proc_status proc = ''running'' \<or> proc_status proc = ''starting''
                        then kill P proc else io_return ()))
                 (\<lambda>e. io_return ()))"

definition stopGateway_fallback :: "platform \<Rightarrow> unit io" where
  "stopGateway_fallback P =
     io_bind (findExistingMoltbotProcess P) (\<lambda>existing.
       case existing of
         None \<Rightarrow> io_return ()
       | Some ex \<Rightarrow> io_catch (kill P ex) (\<lambda>e. io_return ()))"

definition stopGateway :: "platform \<Rightarrow> string option \<Rightarrow> unit io" where
  "stopGateway P processId =
     io_bind (stopGateway_graceful P) (\<lambda>_.
     io_bind (stopGateway_forceKill P processId) (\<lambda>_.
     stopGateway_fallback P))"

section \<open>Waiting for the port\<close>

text \<open>
  The \<open>while (Date.now() < deadline)\<close> loop of \<open>waitForPortFree\<close>, part_000 lines
  263-267. The clock belongs to the platform, so the loop need not end: not returning
  is the value \<open>None\<close>.
\<close>

partial_function (option) waitForPortFree_loop ::
    "platform \<Rightarrow> nat \<Rightarrow> call list \<Rightarrow> ((error + unit) \<times> call list) option" where
  "waitForPortFree_loop P deadline h =
     (if Date_now P h < deadline then
        (case isGatewayHealthy P h of
           (Inl e, h1) \<Rightarrow> Some (Inl e, h1)
         | (Inr healthy, h1) \<Rightarrow>
             if \<not> healthy then Some (Inr (), h1)
             else (case sleep PORT_FREE_POLL_MS h1 of
                     (Inl e, h2) \<Rightarrow> Some (Inl e, h2)
                   | (Inr u, h2) \<Rightarrow> waitForPortFree_loop P deadline h2))
      else Some (Inr (), h))"

definition waitForPortFree :: "platform \<Rightarrow> call list \<Rightarrow> ((error + unit) \<times> call list) option" where
  "waitForPortFree P h = waitForPortFree_loop P (Date_now P h + PORT_FREE_DEADLINE_MS) h"



section \<open>Ensure\<close>

text \<open>
  The engine mutates \<open>stateRef\<close> in place, so a step returns the state reference next to
  its result, also when it throws: what was written before the throw stays written.
\<close>

type_synonym outcome = "(error + unit) \<times> GatewayStateRef \<times> call list"

text \<open>\<open>logs.stderr || '(empty)'\<close>, part_000 line 365.\<close>

definition stderrOrEmpty :: "logs \<Rightarrow> string" where
  "stderrOrEmpty l = (case stderr l of None \<Rightarrow> ''(empty)'' | Some s \<Rightarrow> if s = [] then ''(empty)'' else s)"

text \<open>
  The \<open>catch (e)\<close> block of the port wait, part_000 lines 360-369: the \<open>throw new Error\<close>
  stands inside the \<open>try\<close> whose \<open>catch (logErr)\<close> rethrows \<open>e\<close>.
\<close>

definition reportStartFailure :: "platform \<Rightarrow> process \<Rightarrow> error \<Rightarrow> unit io" where
  "reportStartFailure P proc e =
     io_catch
       (io_bind (getLogs P proc) (\<lambda>l.
          io_throw (Error (''Moltbot gateway failed to start. Stderr: '' @ stderrOrEmpty l))))
       (\<lambda>logErr. io_throw e)"

text \<open>
  \<open>const command = '/usr/local/bin/start-moltbot.sh'\<close> (part_000 line 341) and
  \<open>Object.keys(envVars).length > 0 ? envVars : undefined\<close> (line 346).
\<close>

definition startScript :: string where
  "startScript = ''/usr/local/bin/start-moltbot.sh''"

definition startEnv :: "platform \<Rightarrow> (string \<times> string) list option" where
  "startEnv P = (let envVars = buildEnvVars P in if envVars \<noteq> [] then Some envVars else None)"

text \<open>
  Mounting and starting, part_000 lines 334-370 (the same text in
  \<^verbatim>\<open>src/src/gateway/lifecycle.ts\<close>, lines 160-196).
\<close>

definition ensure_start :: "platform \<Rightarrow> GatewayStateRef \<Rightarrow> call list \<Rightarrow> outcome" where
  "ensure_start P stateRef h =
     (case mountR2Storage P h of
        (Inl e, h1) \<Rightarrow> (Inl e, stateRef, h1)
      | (Inr u, h1) \<Rightarrow>
          (let stateRef1 = stateRef\<lparr>lastGatewayStartAttempt := Date_now P h1\<rparr>
           in (case startProcess P startScript (startEnv P) h1 of
                 (Inl startErr, h2) \<Rightarrow> (Inl startErr, stateRef1, h2)
               | (Inr proc, h2) \<Rightarrow>
                   (let stateRef2 = stateRef1\<lparr>gatewayProcessId := Some (proc_id proc)\<rparr>
                    in (case waitForPort P proc h2 of
                          (Inr u, h3) \<Rightarrow>
                            (Inr (), stateRef2\<lparr>gatewayReady := True,
                                                 lastHealthCheck := Date_now P h3\<rparr>, h3)
                        | (Inl e, h3) \<Rightarrow>
                            (case reportStartFailure P proc e h3 of
                               (r, h4) \<Rightarrow> (r, stateRef2, h4)))))))"

text \<open>
  Step 4 of part_000 (lines 326-332), then mounting and starting. The earlier
  revision has no step 4.
\<close>

definition ensure_fresh :: "platform \<Rightarrow> GatewayStateRef \<Rightarrow> call list \<Rightarrow> outcome option" where
  "ensure_fresh P stateRef h =
     (case isGatewayHealthy P h of
        (Inl e, h1) \<Rightarrow> Some (Inl e, stateRef, h1)
      | (Inr healthy, h1) \<Rightarrow>
          if healthy then
            (case stopGateway P (gatewayProcessId stateRef) h1 of
               (Inl e, h2) \<Rightarrow> Some (Inl e, stateRef, h2)
             | (Inr u, h2) \<Rightarrow>
                 (let stateRef1 = stateRef\<lparr>gatewayProcessId := None\<rparr>
                  in (case waitForPortFree P h2 of
                        None \<Rightarrow> None
                      | Some (Inl e, h3) \<Rightarrow> Some (Inl e, stateRef1, h3)
                      | Some (Inr u, h3) \<Rightarrow> Some (ensure_start P stateRef1 h3))))
          else Some (ensure_start P stateRef h1))"

text \<open>Discovery with one retry, part_000 lines 291-295.\<close>

definition discoverProcess :: "platform \<Rightarrow> process option io" where
  "discoverProcess P =
     io_bind (findExistingMoltbotProcess P) (\<lambda>existing.
       case existing of
         Some p \<Rightarrow> io_return (Some p)
       | None \<Rightarrow> io_bind (sleep 300) (\<lambda>_. findExistingMoltbotProcess P))"

text \<open>The healthy branch of step 2, part_000 lines 288-301.\<close>

definition ensure_healthy :: "platform \<Rightarrow> GatewayStateRef \<Rightarrow> call list \<Rightarrow> outcome" where
  "ensure_healthy P stateRef h =
     (let stateRef1 = stateRef\<lparr>gatewayReady := True, lastHealthCheck := Date_now P h\<rparr>
      in case discoverProcess P h of
           (Inl e, h1) \<Rightarrow> (Inl e, stateRef1, h1)
         | (Inr None, h1) \<Rightarrow> (Inr (), stateRef1, h1)
         | (Inr (Some existing), h1) \<Rightarrow>
             (Inr (), stateRef1\<lparr>gatewayProcessId := Some (proc_id existing),
                                 lastGatewayStartAttempt := Date_now P h1\<rparr>, h1))"

text \<open>Step 3, part_000 lines 304-324, with what follows it passed as \<open>rest\<close>.\<close>

definition ensure_existing ::
    "platform \<Rightarrow> (GatewayStateRef \<Rightarrow> call list \<Rightarrow> outcome option) \<Rightarrow> GatewayStateRef \<Rightarrow> call list \<Rightarrow> outcome option" where
  "ensure_existing P rest stateRef h =
     (case findExistingMoltbotProcess P h of
        (Inl e, h1) \<Rightarrow> Some (Inl e, stateRef, h1)
      | (Inr None, h1) \<Rightarrow> rest stateRef h1
      | (Inr (Some existingProcess), h1) \<Rightarrow>
          (case waitForPort P existingProcess h1 of
             (Inr u, h2) \<Rightarrow>
               Some (Inr (), stateRef\<lparr>gatewayReady := True,
                                       gatewayProcessId := Some (proc_id existingProcess),
                                       lastGatewayStartAttempt := Date_now P h2,
                                       lastHealthCheck := Date_now P h2\<rparr>, h2)
           | (Inl e, h2) \<Rightarrow>
               (case io_catch (kill P existingProcess) (\<lambda>killErr. io_return ()) h2 of
                  (Inl e', h3) \<Rightarrow> Some (Inl e', stateRef, h3)
                | (Inr u, h3) \<Rightarrow> rest stateRef h3)))"

text \<open>\<open>ensureGatewayRunningLogic\<close>, part_000 lines 275-371.\<close>

definition ensureGatewayRunningLogic :: "platform \<Rightarrow> GatewayStateRef \<Rightarrow> call list \<Rightarrow> outcome option" where
  "ensureGatewayRunningLogic P stateRef h =
     (if gatewayReady stateRef then Some (Inr (), stateRef, h)
      else case isGatewayHealthy P h of
             (Inl e, h1) \<Rightarrow> Some (Inl e, stateRef, h1)
           | (Inr healthy, h1) \<Rightarrow>
               if healthy then Some (ensure_healthy P stateRef h1)
               else ensure_existing P (ensure_fresh P) stateRef h1)"

text \<open>
  \<open>ensureGatewayRunningLogic\<close> of \<^verbatim>\<open>src/src/gateway/lifecycle.ts\<close>, lines 117-197:
  discovery without retry, which sets \<open>gatewayProcessId\<close> only.
\<close>

definition ensure_healthy_legacy :: "platform \<Rightarrow> GatewayStateRef \<Rightarrow> call list \<Rightarrow> outcome" where
  "ensure_healthy_legacy P stateRef h =
     (let stateRef1 = stateRef\<lparr>gatewayReady := True, lastHealthCheck := Date_now P h\<rparr>
      in case findExistingMoltbotProcess P h of
           (Inl e, h1) \<Rightarrow> (Inl e, stateRef1, h1)
         | (Inr None, h1) \<Rightarrow> (Inr (), stateRef1, h1)
         | (Inr (Some existing), h1) \<Rightarrow>
             (Inr (), stateRef1\<lparr>gatewayProcessId := Some (proc_id existing)\<rparr>, h1))"

definition ensureGatewayRunningLogic_legacy ::
    "platform \<Rightarrow> GatewayStateRef \<Rightarrow> call list \<Rightarrow> outcome option" where
  "ensureGatewayRunningLogic_legacy P stateRef h =
     (if gatewayReady stateRef then Some (Inr (), stateRef, h)
      else case isGatewayHealthy_legacy P h of
             None \<Rightarrow> None
           | Some (Inl e, h1) \<Rightarrow> Some (Inl e, stateRef, h1)
           | Some (Inr healthy, h1) \<Rightarrow>
               if healthy then Some (ensure_healthy_legacy P stateRef h1)
               else ensure_existing P (\<lambda>s k. Some (ensure_start P s k)) stateRef h1)"

section \<open>Restart\<close>

text \<open>\<open>restartGatewayLogic\<close>, part_000 lines 377-394.\<close>

definition restartGatewayLogic :: "platform \<Rightarrow> GatewayStateRef \<Rightarrow> call list \<Rightarrow> outcome option" where
  "restartGatewayLogic P stateRef h =
     (let processId = gatewayProcessId stateRef
      in case stopGateway P processId h of
           (Inl e, h1) \<Rightarrow> Some (Inl e, stateRef, h1)
         | (Inr u, h1) \<Rightarrow>
             (let stateRef1 = stateRef\<lparr>gatewayProcessId := None, gatewayReady := False\<rparr>
              in (case clearLockFiles P h1 of
                    (Inl e, h2) \<Rightarrow> Some (Inl e, stateRef1, h2)
                  | (Inr u, h2) \<Rightarrow>
                      (case waitForPortFree P h2 of
                         None \<Rightarrow> None
                       | Some (Inl e, h3) \<Rightarrow> Some (Inl e, stateRef1, h3)
                       | Some (Inr u, h3) \<Rightarrow> ensureGatewayRunningLogic P stateRef1 h3))))"


section \<open>The Durable Object\<close>

text \<open>
  The JSON bodies the object answers with. \<open>new Date(ms).toISOString()\<close> is kept as the
  number of milliseconds; \<open>None\<close> is \<open>null\<close>.
\<close>

datatype json =
    LifecycleOk bool "string option"
  | LifecycleFailed string
  | NotFound
  | StateSnapshot bool "string option" "nat option" "nat option"

record response =
  status :: nat
  body :: json

text \<open>
  \<open>runWithLock\<close>, part_000 lines 60-73, as one call sees it. \<open>awaited\<close> lists, in
  order, how the promises settle that the call finds in the lock slot and awaits (line
  62): \<open>Inr ()\<close> for a promise that is fulfilled, \<open>Inl e\<close> for one that is rejected with
  \<open>e\<close>. The list is empty for a call that finds the slot empty. An \<open>await\<close> on a rejected
  promise throws inside the loop, which has no handler: the call leaves \<open>runWithLock\<close>
  with \<open>e\<close>, \<open>fn\<close> is not run, and neither the state nor the sandbox is touched. When the
  list is used up the slot is empty and \<open>fn\<close> runs; its outcome is the outcome of the
  call (lines 64-72). \<open>state\<close> and \<open>h\<close> are \<open>this.state\<close> and the history at the moment the
  call leaves the loop, as the operations ahead of it have left them. Which calls may
  overlap is the subject of the section on the start lock.
\<close>

fun runWithLock ::
    "(error + unit) list \<Rightarrow> (GatewayStateRef \<Rightarrow> call list \<Rightarrow> outcome option) \<Rightarrow>
     GatewayStateRef \<Rightarrow> call list \<Rightarrow> outcome option" where
  "runWithLock [] fn state h = fn state h"
| "runWithLock (Inr u # rest) fn state h = runWithLock rest fn state h"
| "runWithLock (Inl e # rest) fn state h = Some (Inl e, state, h)"

text \<open>
  \<open>handleEnsure\<close> and \<open>handleRestart\<close>, part_000 lines 75-121. The success body reads
  \<open>this.state\<close> after the engine has run; the \<open>catch\<close> answers 503 with the message of
  whatever \<open>runWithLock\<close> threw, the engine's error or the error of an awaited promise.
  \<open>this.getSandbox()\<close> only obtains the handle the capabilities are called through:
  \<open>buildSandboxOptions\<close> (\<^verbatim>\<open>sandbox-options.ts\<close>) returns an options object for every
  environment, and \<open>getSandbox\<close> makes no call to the container. It is not recorded as
  a call.
\<close>

definition respond :: "outcome option \<Rightarrow> (response \<times> GatewayStateRef \<times> call list) option" where
  "respond r =
     (case r of
        None \<Rightarrow> None
      | Some (Inr u, state, h) \<Rightarrow>
          Some (\<lparr>status = 200, body = LifecycleOk (gatewayReady state) (gatewayProcessId state)\<rparr>,
                state, h)
      | Some (Inl e, state, h) \<Rightarrow>
          Some (\<lparr>status = 503, body = LifecycleFailed (message e)\<rparr>, state, h))"

definition handleEnsure ::
    "platform \<Rightarrow> (error + unit) list \<Rightarrow> GatewayStateRef \<Rightarrow> call list \<Rightarrow>
     (response \<times> GatewayStateRef \<times> call list) option" where
  "handleEnsure P awaited state h = respond (runWithLock awaited (ensureGatewayRunningLogic P) state h)"

definition handleRestart ::
    "platform \<Rightarrow> (error + unit) list \<Rightarrow> GatewayStateRef \<Rightarrow> call list \<Rightarrow>
     (response \<times> GatewayStateRef \<times> call list) option" where
  "handleRestart P awaited state h = respond (runWithLock awaited (restartGatewayLogic P) state h)"

text \<open>\<open>handleGetState\<close>, part_000 lines 123-137; the timestamp \<open>0\<close> is falsy.\<close>

definition handleGetState :: "GatewayStateRef \<Rightarrow> response" where
  "handleGetState state =
     \<lparr>status = 200,
      body = StateSnapshot (gatewayReady state) (gatewayProcessId state)
               (if lastGatewayStartAttempt state \<noteq> 0 then Some (lastGatewayStartAttempt state) else None)
               (if lastHealthCheck state \<noteq> 0 then Some (lastHealthCheck state) else None)\<rparr>"

text \<open>
  \<open>url.pathname.replace(/^\/+/, '') || 'ensure'\<close>, part_000 line 37: the leading
  slashes are removed, and the empty string is falsy.
\<close>

definition requestPath :: "string \<Rightarrow> string" where
  "requestPath pathname =
     (let stripped = dropWhile (\<lambda>c. c = CHR ''/'') pathname
      in if stripped = [] then ''ensure'' else stripped)"

text \<open>
  \<open>fetch\<close>, part_000 lines 35-53, given the \<open>pathname\<close> of the request's URL and, for the
  two routes that take the lock, how the awaited promises settle.
\<close>

definition fetch ::
    "platform \<Rightarrow> (error + unit) list \<Rightarrow> string \<Rightarrow> GatewayStateRef \<Rightarrow> call list \<Rightarrow>
     (response \<times> GatewayStateRef \<times> call list) option" where
  "fetch P awaited pathname state h =
     (let path = requestPath pathname
      in if path = ''ensure'' then handleEnsure P awaited state h
         else if path = ''restart'' then handleRestart P awaited state h
         else if path = ''state'' then Some (handleGetState state, state, h)
         else Some (\<lparr>status = 404, body = NotFound\<rparr>, state, h))"

section \<open>The start lock\<close>

text \<open>
  \<open>runWithLock\<close>, part_000 lines 60-73, under JavaScript's run-to-completion rule: the
  code between two \<open>await\<close>s runs without interleaving. A call of \<open>runWithLock\<close> is
  identified by a number; the promise it installs in \<open>startLock\<close> is identified by the
  same number. A call is in one of these phases:
  \<^item> \<open>NotCalled\<close>: not issued yet;
  \<^item> \<open>Awaiting j\<close>: suspended at \<open>await this.startLock\<close> (line 62) on the promise of call \<open>j\<close>;
  \<^item> \<open>Running\<close>: past the loop, \<open>fn()\<close> is in flight and its promise is installed (lines 64-72);
  \<^item> \<open>Fulfilled\<close> or \<open>Rejected\<close>: the promise returned by \<open>runWithLock\<close> has settled.
\<close>

datatype phase = NotCalled | Awaiting nat | Running | Fulfilled | Rejected

record lock =
  startLock :: "nat option"
  phase :: "nat \<Rightarrow> phase"

text \<open>\<open>private startLock: Promise<void> | null = null\<close>, line 22.\<close>

definition lock_init :: lock where
  "lock_init = \<lparr>startLock = None, phase = (\<lambda>i. NotCalled)\<rparr>"

text \<open>
  The loop test of line 61 and what follows it without an intervening \<open>await\<close>: with an
  empty slot the call starts \<open>fn()\<close> and installs its promise (lines 64-71); otherwise it
  awaits the promise in the slot (line 62).
\<close>

definition enter :: "nat \<Rightarrow> lock \<Rightarrow> lock" where
  "enter i L =
     (case startLock L of
        None \<Rightarrow> L\<lparr>startLock := Some i, phase := (phase L)(i := Running)\<rparr>
      | Some j \<Rightarrow> L\<lparr>phase := (phase L)(i := Awaiting j)\<rparr>)"

text \<open>
  What the event loop can do next:
  \<^item> \<open>Call i\<close>: call \<open>i\<close> of \<open>runWithLock\<close> is issued;
  \<^item> \<open>Settle i ok\<close>: the \<open>fn()\<close> of the running call \<open>i\<close> returns (\<open>ok\<close>) or throws; the
    \<open>finally\<close> block clears the slot (line 68) and the promise settles accordingly;
  \<^item> \<open>Resume i\<close>: the promise awaited by call \<open>i\<close> has settled; a fulfilled promise
    lets the loop test run again, a rejected one makes \<open>await\<close> throw out of
    \<open>runWithLock\<close>, whose \<open>fn\<close> is then never run.
  An event that is not enabled leaves the lock as it is.
\<close>

datatype event = Call nat | Settle nat bool | Resume nat

fun step :: "event \<Rightarrow> lock \<Rightarrow> lock" where
  "step (Call i) L = (if phase L i = NotCalled then enter i L else L)"
| "step (Settle i ok) L =
     (if phase L i = Running
      then L\<lparr>startLock := None, phase := (phase L)(i := if ok then Fulfilled else Rejected)\<rparr>
      else L)"
| "step (Resume i) L =
     (case phase L i of
        Awaiting j \<Rightarrow>
          (case phase L j of
             Fulfilled \<Rightarrow> enter i L
           | Rejected \<Rightarrow> L\<lparr>phase := (phase L)(i := Rejected)\<rparr>
           | _ \<Rightarrow> L)
      | _ \<Rightarrow> L)"

fun run :: "event list \<Rightarrow> lock \<Rightarrow> lock" where
  "run [] L = L"
| "run (e # es) L = run es (step e L)"

section \<open>Scenarios\<close>

text \<open>The state the constructor installs, part_000 lines 27-32.\<close>

definition initialState :: GatewayStateRef where
  "initialState =
     \<lparr>gatewayProcessId = None, lastGatewayStartAttempt = 0, gatewayReady = False, lastHealthCheck = 0\<rparr>"

text \<open>
  Cold start: nothing listens on the port, no gateway process exists, and every
  capability succeeds; a started process is \<open>proc-1\<close>. The clock advances by a second
  with every call.
\<close>

definition cold_platform :: platform where
  "cold_platform =
     \<lparr>MOLTBOT_PORT = 18789,
      STARTUP_TIMEOUT_MS = 180000,
      buildEnvVars = [],
      Date_now = (\<lambda>h. 1000 * (1 + length h)),
      containerFetch_result = (\<lambda>h. Settles 1 (Inl (Error ''connection refused''))),
      startProcess_result = (\<lambda>h command. Inr \<lparr>proc_id = ''proc-1'', proc_status = ''starting''\<rparr>),
      waitForProcess_result = (\<lambda>h p. Inr ()),
      getLogs_result = (\<lambda>h p. Inr \<lparr>stdout = Some [], stderr = Some []\<rparr>),
      listProcesses_result = (\<lambda>h. Inr []),
      kill_result = (\<lambda>h p. Inr ()),
      findExistingMoltbotProcess_result = (\<lambda>h. None),
      waitForPort_result = (\<lambda>h p. Inr ()),
      mountR2Storage_result = (\<lambda>h. Inr ())\<rparr>"

text \<open>
  Startup failure: as the cold start, but the started process never opens its port and
  its logs show \<open>boot error: disk full\<close> on stderr.
\<close>

definition boot_failure_platform :: platform where
  "boot_failure_platform =
     cold_platform
       \<lparr>getLogs_result := (\<lambda>h p. Inr \<lparr>stdout = Some [], stderr = Some ''boot error: disk full''\<rparr>),
        waitForPort_result := (\<lambda>h p. Inl (Error ''port 18789 not ready within 180000 ms''))\<rparr>"

text \<open>
  Already healthy, not discovered: the port answers with status 200 and no process
  matches the gateway's signature in the listing, on any attempt.
\<close>

definition undiscovered_platform :: platform where
  "undiscovered_platform = cold_platform\<lparr>containerFetch_result := (\<lambda>h. Settles 1 (Inr 200))\<rparr>"

text \<open>A proxy error: the port answers at once, with status 503.\<close>

definition proxy_error_platform :: platform where
  "proxy_error_platform = cold_platform\<lparr>containerFetch_result := (\<lambda>h. Settles 1 (Inr 503))\<rparr>"

text \<open>
  A gateway process \<open>proc-0\<close> that hangs: it is listed and found, no process ever
  opens the port, and every \<open>kill\<close> raises.
\<close>

definition kill_raises_platform :: platform where
  "kill_raises_platform =
     cold_platform
       \<lparr>listProcesses_result := (\<lambda>h. Inr [\<lparr>proc_id = ''proc-0'', proc_status = ''running''\<rparr>]),
        kill_result := (\<lambda>h p. Inl (Error ''kill failed'')),
        findExistingMoltbotProcess_result := (\<lambda>h. Some \<lparr>proc_id = ''proc-0'', proc_status = ''running''\<rparr>),
        waitForPort_result := (\<lambda>h p. Inl (Error ''port 18789 not ready within 180000 ms''))\<rparr>"

text \<open>
  A gateway that is up when the call arrives: the port answers with status 200 until
  the first command has been issued, and is closed from then on.
\<close>

definition running_platform :: platform where
  "running_platform =
     cold_platform
       \<lparr>containerFetch_result :=
          (\<lambda>h. if h = [] then Settles 1 (Inr 200) else Settles 1 (Inl (Error ''connection refused'')))\<rparr>"

text \<open>The state of a gateway that is tracked as ready, with process \<open>proc-0\<close>.\<close>

definition readyState :: GatewayStateRef where
  "readyState =
     \<lparr>gatewayProcessId = Some ''proc-0'', lastGatewayStartAttempt = 100, gatewayReady = True,
      lastHealthCheck = 200\<rparr>"

text \<open>
  A stale lock file: as the cold start, but every process reports
  \<open>/tmp/clawdbot-gateway.lock\<close>, followed by a no-break space (U+00A0) and a line feed,
  on stdout.
\<close>

definition stale_lock_platform :: platform where
  "stale_lock_platform =
     cold_platform
       \<lparr>getLogs_result :=
          (\<lambda>h p. Inr \<lparr>stdout = Some (codeUnitsOf ''/tmp/clawdbot-gateway.lock'' @ [0x00A0, 0x000A]),
                         stderr = Some []\<rparr>)\<rparr>"

text \<open>
  A mount failure: as the cold start, but mounting the bucket raises. The state is
  that of a gateway \<open>proc-0\<close> that is tracked and not ready.
\<close>

definition mount_failure_platform :: platform where
  "mount_failure_platform =
     cold_platform\<lparr>mountR2Storage_result := (\<lambda>h. Inl (Error ''mount failed''))\<rparr>"

definition trackedState :: GatewayStateRef where
  "trackedState =
     \<lparr>gatewayProcessId = Some ''proc-0'', lastGatewayStartAttempt = 100, gatewayReady = False,
      lastHealthCheck = 200\<rparr>"

section \<open>Predicates used in the properties\<close>

text \<open>An action only appends to the history; an action that moreover never throws.\<close>

definition extends :: "'a io \<Rightarrow> bool" where
  "extends m \<longleftrightarrow> (\<forall>h. \<exists>added. snd (m h) = h @ added)"

definition safe :: "'a io \<Rightarrow> bool" where
  "safe m \<longleftrightarrow> (\<forall>h. \<exists>x added. m h = (Inr x, h @ added))"

text \<open>
  The answer of the port at history \<open>h\<close> is a response that arrives before the health
  check timeout with a status from 200 to 499.
\<close>

definition respondsHealthy :: "platform \<Rightarrow> call list \<Rightarrow> bool" where
  "respondsHealthy P h \<longleftrightarrow>
     (case containerFetch_result P h of
        Settles d (Inr code) \<Rightarrow> d < HEALTH_CHECK_TIMEOUT_MS \<and> 200 \<le> code \<and> code < 500
      | _ \<Rightarrow> False)"

text \<open>
  Between the histories \<open>h\<close> and \<open>h'\<close> the start script was started, and the sandbox
  answered that call with a process whose id is \<open>pid\<close>.
\<close>

definition spawnedDuring :: "platform \<Rightarrow> call list \<Rightarrow> call list \<Rightarrow> string \<Rightarrow> bool" where
  "spawnedDuring P h h' pid \<longleftrightarrow>
     (\<exists>hk \<in> set (prefixes h').
        prefix h hk \<and>
        (case drop (length hk) h' of
           StartProcess command env # later \<Rightarrow>
             command = startScript \<and>
             (case startProcess_result P hk command of
                Inr proc \<Rightarrow> proc_id proc = pid
              | Inl e \<Rightarrow> False)
         | _ \<Rightarrow> False))"

text \<open>
  What an attempt that went from state \<open>s\<close> and history \<open>h\<close> to the outcome
  \<open>(r, s', h')\<close> has left behind when it started, or waited for, a process: on success
  the state is ready with a process id; on failure \<open>gatewayReady\<close> and \<open>lastHealthCheck\<close>
  are as before, and \<open>gatewayProcessId\<close> is as before, or null, or the id of a process
  spawned during the attempt.
\<close>

definition attemptOutcome :: "platform \<Rightarrow> GatewayStateRef \<Rightarrow> call list \<Rightarrow> outcome \<Rightarrow> bool" where
  "attemptOutcome P s h out \<longleftrightarrow>
     (case out of
        (r, s', h') \<Rightarrow>
          prefix h h' \<and>
          (case r of
             Inr u \<Rightarrow> gatewayReady s' \<and> gatewayProcessId s' \<noteq> None
           | Inl e \<Rightarrow>
               gatewayReady s' = gatewayReady s \<and> lastHealthCheck s' = lastHealthCheck s \<and>
               (case gatewayProcessId s' of
                  None \<Rightarrow> True
                | Some pid \<Rightarrow> gatewayProcessId s = Some pid \<or> spawnedDuring P h h' pid)))"

text \<open>The calls \<open>clearLockFiles\<close> may make for the given lock paths.\<close>

fun lockCall :: "string list \<Rightarrow> call \<Rightarrow> bool" where
  "lockCall paths (StartProcess command env) =
     (env = None \<and> (\<exists>p \<in> set paths. command = lockTestCommand p \<or> command = lockRmCommand p))"
| "lockCall paths (WaitForProcess p timeoutMs) = (timeoutMs = 3000)"
| "lockCall paths (GetLogs p) = True"
| "lockCall paths c = False"

text \<open>
  In the calls \<open>added\<close> made from history \<open>h\<close>, every \<open>rm -f\<close> of a lock path comes
  directly after the \<open>test -f\<close> of the same path, the wait for that process and the
  reading of its logs, and the logs read there report the path.
\<close>

definition rmAfterReport :: "platform \<Rightarrow> call list \<Rightarrow> call list \<Rightarrow> bool" where
  "rmAfterReport P h added \<longleftrightarrow>
     (\<forall>pre post lockPath env.
        added = pre @ StartProcess (lockRmCommand lockPath) env # post \<longrightarrow>
        (\<exists>before pid l.
           pre = before @ [StartProcess (lockTestCommand lockPath) None, WaitForProcess pid 3000, GetLogs pid] \<and>
           getLogs_result P (h @ before @ [StartProcess (lockTestCommand lockPath) None, WaitForProcess pid 3000]) pid
             = Inr l \<and>
           lockFileReported l lockPath))"

text \<open>
  The error of the first rejected promise among those a call awaits: the error it is
  thrown out of \<open>runWithLock\<close> with, if there is one.
\<close>

fun rejection :: "(error + unit) list \<Rightarrow> error option" where
  "rejection [] = None"
| "rejection (Inr u # rest) = rejection rest"
| "rejection (Inl e # rest) = Some e"

text \<open>
  The invariant of the start lock: the slot holds the promise of a call exactly when
  that call is running its operation, and a suspended call awaits the promise of a call
  that is running or has settled.
\<close>

definition lock_inv :: "lock \<Rightarrow> bool" where
  "lock_inv L \<longleftrightarrow>
     (\<forall>i. (startLock L = Some i) = (phase L i = Running)) \<and>
     (\<forall>i j. phase L i = Awaiting j \<longrightarrow>
            phase L j = Running \<or> phase L j = Fulfilled \<or> phase L j = Rejected)"

section \<open>Lemmas: actions that only extend the history\<close>

lemmas io_defs = io_return_def io_throw_def io_bind_def io_catch_def perform_def

lemmas call_defs = startProcess_def waitForProcess_def getLogs_def listProcesses_def kill_def
  findExistingMoltbotProcess_def waitForPort_def mountR2Storage_def sleep_def

lemma extends_return: "extends (io_return x)"
  by (simp add: extends_def io_defs)

lemma extends_perform: "extends (perform c a)"
  by (simp add: extends_def io_defs)

lemma extends_bind:
  assumes m: "extends m" and f: "\<And>x. extends (f x)"
  shows "extends (io_bind m f)"
  unfolding extends_def
proof
  fix h
  obtain r h1 where mh: "m h = (r, h1)" by (cases "m h")
  from m mh obtain a1 where h1: "h1 = h @ a1" unfolding extends_def by (metis snd_conv)
  show "\<exists>added. snd (io_bind m f h) = h @ added"
  proof (cases r)
    case (Inl e)
    then show ?thesis using mh h1 by (simp add: io_bind_def)
  next
    case (Inr x)
    from f[of x] obtain a2 where "snd (f x h1) = h1 @ a2" unfolding extends_def by blast
    then show ?thesis using mh h1 Inr by (simp add: io_bind_def)
  qed
qed

lemma extends_catch:
  assumes m: "extends m" and g: "\<And>e. extends (g e)"
  shows "extends (io_catch m g)"
  unfolding extends_def
proof
  fix h
  obtain r h1 where mh: "m h = (r, h1)" by (cases "m h")
  from m mh obtain a1 where h1: "h1 = h @ a1" unfolding extends_def by (metis snd_conv)
  show "\<exists>added. snd (io_catch m g h) = h @ added"
  proof (cases r)
    case (Inr x)
    then show ?thesis using mh h1 by (simp add: io_catch_def)
  next
    case (Inl e)
    from g[of e] obtain a2 where "snd (g e h1) = h1 @ a2" unfolding extends_def by blast
    then show ?thesis using mh h1 Inl by (simp add: io_catch_def)
  qed
qed

lemma safe_swallow:
  assumes m: "extends m"
  shows "safe (io_catch m (\<lambda>e. io_return ()))"
  unfolding safe_def
proof
  fix h
  obtain r h1 where mh: "m h = (r, h1)" by (cases "m h")
  from m mh obtain a1 where h1: "h1 = h @ a1" unfolding extends_def by (metis snd_conv)
  show "\<exists>x added. io_catch m (\<lambda>e. io_return ()) h = (Inr x, h @ added)"
    using mh h1 by (cases r) (auto simp: io_catch_def io_return_def)
qed

lemma extends_calls:
  "extends (startProcess P c e)" "extends (waitForProcess P p t)" "extends (getLogs P p)"
  "extends (listProcesses P)" "extends (kill P p)" "extends (waitForPort P p)"
  "extends (mountR2Storage P)"
  by (simp_all add: call_defs extends_perform)

lemma isGatewayHealthy_eq:
  "isGatewayHealthy P h = (Inr (respondsHealthy P h), h @ [ContainerFetch (MOLTBOT_PORT P)])"
  by (auto simp: isGatewayHealthy_def containerFetch_race_def respondsHealthy_def io_defs
           split: fetch_result.splits sum.splits)

lemma graceful_shape:
  "\<exists>g. stopGateway_graceful P h =
         (Inr (), h @ StartProcess stopCommand None # g)"
  unfolding stopGateway_graceful_def io_defs call_defs
  by (auto split: sum.splits)

lemma fallback_shape:
  "stopGateway_fallback P h =
     (Inr (), h @ FindExistingMoltbotProcess #
        (case findExistingMoltbotProcess_result P h of None \<Rightarrow> [] | Some ex \<Rightarrow> [Kill (proc_id ex)]))"
  unfolding stopGateway_fallback_def io_defs call_defs
  by (auto split: sum.splits option.splits)

section \<open>Lemmas: the layers of stop\<close>

lemma forceKill_calls:
  "\<exists>f. stopGateway_forceKill P processId h = (Inr (), h @ f) \<and>
        (if processId = None \<or> processId = Some [] then f = []
         else f = [ListProcesses] \<or> f = [ListProcesses, Kill (the processId)])"
proof (cases "processId = None \<or> processId = Some []")
  case True
  then have "stopGateway_forceKill P processId h = (Inr (), h @ [])"
    by (auto simp: stopGateway_forceKill_def io_return_def)
  with True show ?thesis by auto
next
  case False
  then obtain pid where pid: "processId = Some pid" "pid \<noteq> []" by auto
  show ?thesis
  proof (cases "listProcesses_result P h")
    case (Inl e)
    then have "stopGateway_forceKill P processId h = (Inr (), h @ [ListProcesses])"
      using pid by (simp add: stopGateway_forceKill_def io_defs listProcesses_def)
    with False show ?thesis by auto
  next
    case (Inr processes)
    show ?thesis
    proof (cases "find (\<lambda>p. proc_id p = pid) processes")
      case None
      then have "stopGateway_forceKill P processId h = (Inr (), h @ [ListProcesses])"
        using pid Inr by (simp add: stopGateway_forceKill_def io_defs listProcesses_def)
      with False show ?thesis by auto
    next
      case (Some proc)
      then have id: "proc_id proc = pid" by (auto simp: find_Some_iff)
      show ?thesis
      proof (cases "proc_status proc = ''running'' \<or> proc_status proc = ''starting''")
        case live: True
        have "stopGateway_forceKill P processId h = (Inr (), h @ [ListProcesses, Kill pid])"
          using pid Inr Some live id
          by (cases "kill_result P (h @ [ListProcesses]) pid")
             (auto simp: stopGateway_forceKill_def io_defs listProcesses_def kill_def)
        with False pid show ?thesis by auto
      next
        case dead: False
        have "stopGateway_forceKill P processId h = (Inr (), h @ [ListProcesses])"
          using pid Inr Some dead
          by (auto simp: stopGateway_forceKill_def io_defs listProcesses_def)
        with False show ?thesis by auto
      qed
    qed
  qed
qed

lemma stopGateway_layers:
  "\<exists>graceful forced.
     stopGateway P processId h =
       (Inr (), (h @ StartProcess stopCommand None # graceful) @ forced @
          FindExistingMoltbotProcess #
          (case findExistingMoltbotProcess_result P ((h @ StartProcess stopCommand None # graceful) @ forced) of
             None \<Rightarrow> [] | Some ex \<Rightarrow> [Kill (proc_id ex)])) \<and>
     (if processId = None \<or> processId = Some [] then forced = []
      else forced = [ListProcesses] \<or> forced = [ListProcesses, Kill (the processId)])"
proof -
  obtain g where g: "stopGateway_graceful P h = (Inr (), h @ StartProcess stopCommand None # g)"
    using graceful_shape by blast
  define h1 where "h1 = h @ StartProcess stopCommand None # g"
  obtain f where f: "stopGateway_forceKill P processId h1 = (Inr (), h1 @ f)"
    and fs: "if processId = None \<or> processId = Some [] then f = []
             else f = [ListProcesses] \<or> f = [ListProcesses, Kill (the processId)]"
    using forceKill_calls by blast
  have "stopGateway P processId h = stopGateway_fallback P (h1 @ f)"
    using g f by (simp add: stopGateway_def io_bind_def h1_def)
  then have "stopGateway P processId h =
       (Inr (), (h1 @ f) @ FindExistingMoltbotProcess #
          (case findExistingMoltbotProcess_result P (h1 @ f) of
             None \<Rightarrow> [] | Some ex \<Rightarrow> [Kill (proc_id ex)]))"
    by (simp only: fallback_shape)
  then have "stopGateway P processId h =
       (Inr (), (h @ StartProcess stopCommand None # g) @ f @ FindExistingMoltbotProcess #
          (case findExistingMoltbotProcess_result P ((h @ StartProcess stopCommand None # g) @ f) of
             None \<Rightarrow> [] | Some ex \<Rightarrow> [Kill (proc_id ex)]))"
    unfolding h1_def by (simp only: append_assoc)
  with fs show ?thesis by blast
qed

lemma stopGateway_returns:
  "\<exists>stopped. stopGateway P processId h = (Inr (), h @ StartProcess stopCommand None # stopped)"
proof -
  obtain graceful forced where "stopGateway P processId h =
       (Inr (), (h @ StartProcess stopCommand None # graceful) @ forced @
          FindExistingMoltbotProcess #
          (case findExistingMoltbotProcess_result P ((h @ StartProcess stopCommand None # graceful) @ forced) of
             None \<Rightarrow> [] | Some ex \<Rightarrow> [Kill (proc_id ex)]))"
    using stopGateway_layers by blast
  then have "stopGateway P processId h =
       (Inr (), h @ StartProcess stopCommand None # (graceful @ forced @
          FindExistingMoltbotProcess #
          (case findExistingMoltbotProcess_result P ((h @ StartProcess stopCommand None # graceful) @ forced) of
             None \<Rightarrow> [] | Some ex \<Rightarrow> [Kill (proc_id ex)])))"
    by simp
  then show ?thesis by (rule exI)
qed

section \<open>Lemmas: lock files\<close>

lemma lockCall_mono: "lockCall rest c \<Longrightarrow> lockCall (p # rest) c"
  by (cases c) auto

lemma lockRm_not_test: "lockRmCommand p \<noteq> lockTestCommand q"
  by (simp add: lockRmCommand_def lockTestCommand_def)

lemma lockRm_inj: "lockRmCommand p = lockRmCommand q \<longleftrightarrow> p = q"
  by (simp add: lockRmCommand_def)

lemma rmAfterReport_Nil: "rmAfterReport P h []"
  by (simp add: rmAfterReport_def)

lemma rmAfterReport_skip:
  assumes notRm: "\<And>lockPath env. c \<noteq> StartProcess (lockRmCommand lockPath) env"
    and later: "rmAfterReport P (h @ [c]) added"
  shows "rmAfterReport P h (c # added)"
  unfolding rmAfterReport_def
proof (intro allI impI)
  fix pre post lockPath env
  assume eq: "c # added = pre @ StartProcess (lockRmCommand lockPath) env # post"
  with notRm obtain pre' where pre: "pre = c # pre'"
    and rest: "added = pre' @ StartProcess (lockRmCommand lockPath) env # post"
    by (cases pre) auto
  from later[unfolded rmAfterReport_def, rule_format, OF rest] obtain before pid l where
    b: "pre' = before @ [StartProcess (lockTestCommand lockPath) None, WaitForProcess pid 3000, GetLogs pid]"
    and g: "getLogs_result P ((h @ [c]) @ before @
              [StartProcess (lockTestCommand lockPath) None, WaitForProcess pid 3000]) pid = Inr l"
    and r: "lockFileReported l lockPath"
    by blast
  show "\<exists>before pid l.
          pre = before @ [StartProcess (lockTestCommand lockPath) None, WaitForProcess pid 3000, GetLogs pid] \<and>
          getLogs_result P (h @ before @ [StartProcess (lockTestCommand lockPath) None, WaitForProcess pid 3000]) pid
            = Inr l \<and>
          lockFileReported l lockPath"
  proof (intro exI conjI)
    show "pre = (c # before) @ [StartProcess (lockTestCommand lockPath) None, WaitForProcess pid 3000, GetLogs pid]"
      using pre b by simp
    show "getLogs_result P (h @ (c # before) @
            [StartProcess (lockTestCommand lockPath) None, WaitForProcess pid 3000]) pid = Inr l"
      using g by simp
    show "lockFileReported l lockPath" by (rule r)
  qed
qed

lemma rmAfterReport_tested:
  assumes "rmAfterReport P (h @ [StartProcess (lockTestCommand p) None, WaitForProcess pid 3000, GetLogs pid]) added"
  shows "rmAfterReport P h
           ([StartProcess (lockTestCommand p) None, WaitForProcess pid 3000, GetLogs pid] @ added)"
proof -
  have a: "rmAfterReport P (h @ [StartProcess (lockTestCommand p) None, WaitForProcess pid 3000]) (GetLogs pid # added)"
    by (rule rmAfterReport_skip) (use assms in simp_all)
  have b: "rmAfterReport P (h @ [StartProcess (lockTestCommand p) None]) (WaitForProcess pid 3000 # GetLogs pid # added)"
    by (rule rmAfterReport_skip) (use a in simp_all)
  have "rmAfterReport P h (StartProcess (lockTestCommand p) None # WaitForProcess pid 3000 # GetLogs pid # added)"
    by (rule rmAfterReport_skip) (use b in \<open>simp_all add: lockRm_not_test[symmetric]\<close>)
  then show ?thesis by simp
qed

lemma rmAfterReport_removed:
  assumes logs: "getLogs_result P (h @ [StartProcess (lockTestCommand p) None, WaitForProcess pid 3000]) pid = Inr l"
    and reported: "lockFileReported l p"
    and later: "rmAfterReport P
                  (h @ [StartProcess (lockTestCommand p) None, WaitForProcess pid 3000, GetLogs pid,
                        StartProcess (lockRmCommand p) None]) added"
  shows "rmAfterReport P h
           ([StartProcess (lockTestCommand p) None, WaitForProcess pid 3000, GetLogs pid,
             StartProcess (lockRmCommand p) None] @ added)"
  unfolding rmAfterReport_def
proof (intro allI impI)
  fix pre post lockPath env
  let ?front = "[StartProcess (lockTestCommand p) None, WaitForProcess pid 3000, GetLogs pid]"
  assume eq: "[StartProcess (lockTestCommand p) None, WaitForProcess pid 3000, GetLogs pid,
               StartProcess (lockRmCommand p) None] @ added =
              pre @ StartProcess (lockRmCommand lockPath) env # post"
  then consider
      (here) "pre = ?front" "lockPath = p"
    | (there) pre' where "pre = (?front @ [StartProcess (lockRmCommand p) None]) @ pre'"
        "added = pre' @ StartProcess (lockRmCommand lockPath) env # post"
    by (auto simp: Cons_eq_append_conv lockRm_not_test[symmetric] lockRm_inj)
  then show "\<exists>before pid l.
          pre = before @ [StartProcess (lockTestCommand lockPath) None, WaitForProcess pid 3000, GetLogs pid] \<and>
          getLogs_result P (h @ before @ [StartProcess (lockTestCommand lockPath) None, WaitForProcess pid 3000]) pid
            = Inr l \<and>
          lockFileReported l lockPath"
  proof cases
    case here
    show ?thesis
    proof (intro exI conjI)
      show "pre = [] @ [StartProcess (lockTestCommand lockPath) None, WaitForProcess pid 3000, GetLogs pid]"
        using here by simp
      show "getLogs_result P (h @ [] @ [StartProcess (lockTestCommand lockPath) None, WaitForProcess pid 3000]) pid
              = Inr l"
        using here logs by simp
      show "lockFileReported l lockPath" using here reported by simp
    qed
  next
    case there
    from later[unfolded rmAfterReport_def, rule_format, OF there(2)] obtain before pid' l' where
      b: "pre' = before @ [StartProcess (lockTestCommand lockPath) None, WaitForProcess pid' 3000, GetLogs pid']"
      and g: "getLogs_result P
                ((h @ [StartProcess (lockTestCommand p) None, WaitForProcess pid 3000, GetLogs pid,
                       StartProcess (lockRmCommand p) None]) @ before @
                 [StartProcess (lockTestCommand lockPath) None, WaitForProcess pid' 3000]) pid' = Inr l'"
      and r: "lockFileReported l' lockPath"
      by blast
    show ?thesis
    proof (intro exI conjI)
      show "pre = ((?front @ [StartProcess (lockRmCommand p) None]) @ before) @
                  [StartProcess (lockTestCommand lockPath) None, WaitForProcess pid' 3000, GetLogs pid']"
        using there(1) b by simp
      show "getLogs_result P (h @ ((?front @ [StartProcess (lockRmCommand p) None]) @ before) @
              [StartProcess (lockTestCommand lockPath) None, WaitForProcess pid' 3000]) pid' = Inr l'"
        using g by simp
      show "lockFileReported l' lockPath" by (rule r)
    qed
  qed
qed

text \<open>
  One round of the loop: the calls it makes, after which the loop either has ended
  with an error or goes on with the remaining paths.
\<close>

lemma clearLockFiles_loop_round:
  "\<exists>front.
     (snd (clearLockFiles_loop P (p # rest) h) = h @ front \<or>
      snd (clearLockFiles_loop P (p # rest) h) = snd (clearLockFiles_loop P rest (h @ front))) \<and>
     (\<forall>c \<in> set front. lockCall (p # rest) c) \<and>
     (\<forall>added. rmAfterReport P (h @ front) added \<longrightarrow> rmAfterReport P h (front @ added))"
proof (cases "startProcess_result P h (lockTestCommand p)")
  case (Inl e)
  let ?front = "[StartProcess (lockTestCommand p) None]"
  have "snd (clearLockFiles_loop P (p # rest) h) = h @ ?front"
    using Inl by (simp add: io_defs call_defs)
  moreover have "\<forall>c \<in> set ?front. lockCall (p # rest) c" by simp
  moreover have "\<forall>added. rmAfterReport P (h @ ?front) added \<longrightarrow> rmAfterReport P h (?front @ added)"
  proof (intro allI impI)
    fix added assume a: "rmAfterReport P (h @ ?front) added"
    have "rmAfterReport P h (StartProcess (lockTestCommand p) None # added)"
      by (rule rmAfterReport_skip) (use a in \<open>simp_all add: lockRm_not_test[symmetric]\<close>)
    then show "rmAfterReport P h (?front @ added)" by simp
  qed
  ultimately show ?thesis by blast
next
  case (Inr proc)
  note start = this
  let ?h1 = "h @ [StartProcess (lockTestCommand p) None]"
  show ?thesis
  proof (cases "waitForProcess_result P ?h1 (proc_id proc)")
    case (Inl e)
    let ?front = "[StartProcess (lockTestCommand p) None, WaitForProcess (proc_id proc) 3000]"
    have "snd (clearLockFiles_loop P (p # rest) h) = h @ ?front"
      using start Inl by (simp add: io_defs call_defs)
    moreover have "\<forall>c \<in> set ?front. lockCall (p # rest) c" by simp
    moreover have "\<forall>added. rmAfterReport P (h @ ?front) added \<longrightarrow> rmAfterReport P h (?front @ added)"
    proof (intro allI impI)
      fix added assume a: "rmAfterReport P (h @ ?front) added"
      have b: "rmAfterReport P (h @ [StartProcess (lockTestCommand p) None])
                   (WaitForProcess (proc_id proc) 3000 # added)"
        by (rule rmAfterReport_skip) (use a in simp_all)
      have "rmAfterReport P h (StartProcess (lockTestCommand p) None # WaitForProcess (proc_id proc) 3000 # added)"
        by (rule rmAfterReport_skip) (use b in \<open>simp_all add: lockRm_not_test[symmetric]\<close>)
      then show "rmAfterReport P h (?front @ added)" by simp
    qed
    ultimately show ?thesis by blast
  next
    case (Inr u)
    note wait = this
    let ?h2 = "?h1 @ [WaitForProcess (proc_id proc) 3000]"
    let ?front3 = "[StartProcess (lockTestCommand p) None, WaitForProcess (proc_id proc) 3000,
                    GetLogs (proc_id proc)]"
    have calls3: "\<forall>c \<in> set ?front3. lockCall (p # rest) c" by simp
    have rm3: "\<forall>added. rmAfterReport P (h @ ?front3) added \<longrightarrow> rmAfterReport P h (?front3 @ added)"
      using rmAfterReport_tested by blast
    show ?thesis
    proof (cases "getLogs_result P ?h2 (proc_id proc)")
      case (Inl e)
      have "snd (clearLockFiles_loop P (p # rest) h) = h @ ?front3"
        using start wait Inl by (simp add: io_defs call_defs)
      with calls3 rm3 show ?thesis by blast
    next
      case (Inr l)
      note logs = this
      let ?h3 = "?h2 @ [GetLogs (proc_id proc)]"
      show ?thesis
      proof (cases "lockFileReported l p")
        case False
        have "snd (clearLockFiles_loop P (p # rest) h) = snd (clearLockFiles_loop P rest (h @ ?front3))"
          using start wait logs False by (simp add: io_defs call_defs)
        with calls3 rm3 show ?thesis by blast
      next
        case True
        note present = this
        have logs': "getLogs_result P
            (h @ [StartProcess (lockTestCommand p) None, WaitForProcess (proc_id proc) 3000]) (proc_id proc) = Inr l"
          using logs by simp
        show ?thesis
        proof (cases "startProcess_result P ?h3 (lockRmCommand p)")
          case (Inl e)
          let ?front = "[StartProcess (lockTestCommand p) None, WaitForProcess (proc_id proc) 3000,
                         GetLogs (proc_id proc), StartProcess (lockRmCommand p) None]"
          have "snd (clearLockFiles_loop P (p # rest) h) = h @ ?front"
            using start wait logs present Inl by (simp add: io_defs call_defs)
          moreover have "\<forall>c \<in> set ?front. lockCall (p # rest) c" by simp
          moreover have "\<forall>added. rmAfterReport P (h @ ?front) added \<longrightarrow> rmAfterReport P h (?front @ added)"
            using rmAfterReport_removed[OF logs' present] by blast
          ultimately show ?thesis by blast
        next
          case (Inr rmProc)
          note rm = this
          let ?h4 = "?h3 @ [StartProcess (lockRmCommand p) None]"
          let ?front4 = "[StartProcess (lockTestCommand p) None, WaitForProcess (proc_id proc) 3000,
                          GetLogs (proc_id proc), StartProcess (lockRmCommand p) None]"
          let ?front = "?front4 @ [WaitForProcess (proc_id rmProc) 3000]"
          have calls: "\<forall>c \<in> set ?front. lockCall (p # rest) c" by simp
          have rm5: "\<forall>added. rmAfterReport P (h @ ?front) added \<longrightarrow> rmAfterReport P h (?front @ added)"
          proof (intro allI impI)
            fix added assume "rmAfterReport P (h @ ?front) added"
            then have a: "rmAfterReport P ((h @ ?front4) @ [WaitForProcess (proc_id rmProc) 3000]) added"
              by simp
            have "rmAfterReport P (h @ ?front4) (WaitForProcess (proc_id rmProc) 3000 # added)"
              by (rule rmAfterReport_skip) (use a in simp_all)
            from rmAfterReport_removed[OF logs' present this]
            show "rmAfterReport P h (?front @ added)" by simp
          qed
          have "snd (clearLockFiles_loop P (p # rest) h) = h @ ?front \<or>
                snd (clearLockFiles_loop P (p # rest) h) = snd (clearLockFiles_loop P rest (h @ ?front))"
            using start wait logs present rm
            by (cases "waitForProcess_result P ?h4 (proc_id rmProc)") (simp_all add: io_defs call_defs)
          with calls rm5 show ?thesis by blast
        qed
      qed
    qed
  qed
qed

lemma clearLockFiles_loop_calls:
  "\<exists>added. snd (clearLockFiles_loop P paths h) = h @ added \<and>
           (\<forall>c \<in> set added. lockCall paths c) \<and> rmAfterReport P h added"
proof (induction paths arbitrary: h)
  case Nil
  show ?case by (simp add: io_return_def rmAfterReport_Nil)
next
  case (Cons p rest)
  from clearLockFiles_loop_round[of P p rest h] obtain front where
    run: "snd (clearLockFiles_loop P (p # rest) h) = h @ front \<or>
          snd (clearLockFiles_loop P (p # rest) h) = snd (clearLockFiles_loop P rest (h @ front))"
    and calls: "\<forall>c \<in> set front. lockCall (p # rest) c"
    and rm: "\<And>added. rmAfterReport P (h @ front) added \<Longrightarrow> rmAfterReport P h (front @ added)"
    by blast
  from run show ?case
  proof
    assume "snd (clearLockFiles_loop P (p # rest) h) = h @ front"
    then have "snd (clearLockFiles_loop P (p # rest) h) = h @ (front @ [])" by simp
    moreover have "\<forall>c \<in> set (front @ []). lockCall (p # rest) c" using calls by simp
    moreover have "rmAfterReport P h (front @ [])" by (rule rm) (rule rmAfterReport_Nil)
    ultimately show ?thesis by blast
  next
    assume go: "snd (clearLockFiles_loop P (p # rest) h) = snd (clearLockFiles_loop P rest (h @ front))"
    from Cons.IH[of "h @ front"] obtain added where
      a: "snd (clearLockFiles_loop P rest (h @ front)) = (h @ front) @ added"
      and b: "\<forall>c \<in> set added. lockCall rest c"
      and c: "rmAfterReport P (h @ front) added"
      by blast
    have "snd (clearLockFiles_loop P (p # rest) h) = h @ (front @ added)" using go a by simp
    moreover have "\<forall>c \<in> set (front @ added). lockCall (p # rest) c"
      using calls b lockCall_mono by auto
    moreover have "rmAfterReport P h (front @ added)" using c by (rule rm)
    ultimately show ?thesis by blast
  qed
qed

lemma clearLockFiles_loop_first:
  "\<exists>more. snd (clearLockFiles_loop P (p # rest) h) = h @ StartProcess (lockTestCommand p) None # more"
proof -
  have e: "extends (\<lambda>k. case startProcess_result P h (lockTestCommand p) of Inl e \<Rightarrow> (Inl e, k)
      | Inr proc \<Rightarrow> (io_bind (waitForProcess P proc 3000) (\<lambda>_.
     io_bind (getLogs P proc) (\<lambda>logs.
     io_bind (if lockFileReported logs p
              then io_bind (startProcess P (lockRmCommand p) None)
                     (\<lambda>rmProc. waitForProcess P rmProc 3000)
              else io_return ()) (\<lambda>_.
     clearLockFiles_loop P rest)))) k)"
  proof (cases "startProcess_result P h (lockTestCommand p)")
    case (Inl e)
    then show ?thesis by (simp add: extends_def)
  next
    case (Inr proc)
    have "extends (clearLockFiles_loop P rest)"
      unfolding extends_def using clearLockFiles_loop_calls by blast
    then have "extends (io_bind (waitForProcess P proc 3000) (\<lambda>_.
     io_bind (getLogs P proc) (\<lambda>logs.
     io_bind (if lockFileReported logs p
              then io_bind (startProcess P (lockRmCommand p) None)
                     (\<lambda>rmProc. waitForProcess P rmProc 3000)
              else io_return ()) (\<lambda>_.
     clearLockFiles_loop P rest))))"
      by (intro extends_bind extends_calls) (auto intro!: extends_bind extends_calls extends_return)
    then show ?thesis using Inr by (simp add: extends_def)
  qed
  then obtain added where "snd ((\<lambda>k. case startProcess_result P h (lockTestCommand p) of Inl e \<Rightarrow> (Inl e, k)
      | Inr proc \<Rightarrow> (io_bind (waitForProcess P proc 3000) (\<lambda>_.
     io_bind (getLogs P proc) (\<lambda>logs.
     io_bind (if lockFileReported logs p
              then io_bind (startProcess P (lockRmCommand p) None)
                     (\<lambda>rmProc. waitForProcess P rmProc 3000)
              else io_return ()) (\<lambda>_.
     clearLockFiles_loop P rest)))) k) (h @ [StartProcess (lockTestCommand p) None])) = (h @ [StartProcess (lockTestCommand p) None]) @ added"
    unfolding extends_def by blast
  then show ?thesis
    by (cases "startProcess_result P h (lockTestCommand p)") (auto simp: io_bind_def startProcess_def perform_def)
qed

section \<open>Lemmas: waiting for the port\<close>

lemma safe_clearLockFiles: "safe (clearLockFiles P)"
proof -
  have "extends (clearLockFiles_loop P GATEWAY_LOCK_PATHS)"
    unfolding extends_def using clearLockFiles_loop_calls by blast
  then show ?thesis unfolding clearLockFiles_def by (rule safe_swallow)
qed

lemma clearLockFiles_snd: "snd (clearLockFiles P h) = snd (clearLockFiles_loop P GATEWAY_LOCK_PATHS h)"
  by (cases "clearLockFiles_loop P GATEWAY_LOCK_PATHS h" rule: prod.exhaust; rename_tac r k; case_tac r)
     (simp_all add: clearLockFiles_def io_catch_def io_return_def)

lemma clearLockFiles_eq: "clearLockFiles P h = (Inr (), snd (clearLockFiles_loop P GATEWAY_LOCK_PATHS h))"
proof -
  from safe_clearLockFiles[of P] obtain x added where "clearLockFiles P h = (Inr x, h @ added)"
    unfolding safe_def by blast
  then have "clearLockFiles P h = (Inr (), snd (clearLockFiles P h))" by simp
  then show ?thesis by (simp only: clearLockFiles_snd)
qed

lemma waitForPortFree_loop_result:
  assumes "waitForPortFree_loop P deadline h = Some y"
  shows "\<exists>w. y = (Inr (), h @ w)"
proof -
  have "\<exists>w. y = (Inr (), snd ((P, deadline), h) @ w)"
  proof (rule waitForPortFree_loop.raw_induct
                [where Pa = "\<lambda>x y. \<exists>w. y = (Inr (), snd x @ w)", OF _ assms], goal_cases)
    case (1 loop P deadline h y)
    show ?case
    proof (cases "Date_now P h < deadline")
      case False
      with 1(2) have "y = (Inr (), h @ [])" by auto
      then show ?thesis unfolding snd_conv by (rule exI)
    next
      case True
      show ?thesis
      proof (cases "respondsHealthy P h")
        case False
        with 1(2) True have "y = (Inr (), h @ [ContainerFetch (MOLTBOT_PORT P)])"
          by (auto simp: isGatewayHealthy_eq)
        then show ?thesis unfolding snd_conv by (rule exI)
      next
        case healthy: True
        with 1(2) True have "loop P deadline (h @ [ContainerFetch (MOLTBOT_PORT P), Sleep PORT_FREE_POLL_MS]) = Some y"
          by (simp add: isGatewayHealthy_eq sleep_def perform_def)
        from 1(1)[OF this] obtain w where
          "y = (Inr (), h @ ([ContainerFetch (MOLTBOT_PORT P), Sleep PORT_FREE_POLL_MS] @ w))"
          by auto
        then show ?thesis unfolding snd_conv by (rule exI)
      qed
    qed
  qed
  then show ?thesis by simp
qed

lemma waitForPortFree_result:
  assumes "waitForPortFree P h = Some y"
  shows "\<exists>w. y = (Inr (), h @ ContainerFetch (MOLTBOT_PORT P) # w)"
proof -
  let ?deadline = "Date_now P h + PORT_FREE_DEADLINE_MS"
  have lt: "Date_now P h < ?deadline" by (simp add: PORT_FREE_DEADLINE_MS_def)
  have loop: "waitForPortFree_loop P ?deadline h = Some y"
    using assms by (simp add: waitForPortFree_def)
  show ?thesis
  proof (cases "respondsHealthy P h")
    case False
    with loop lt show ?thesis
      by (subst (asm) waitForPortFree_loop.simps) (auto simp: isGatewayHealthy_eq)
  next
    case True
    with loop lt have "waitForPortFree_loop P ?deadline (h @ [ContainerFetch (MOLTBOT_PORT P), Sleep PORT_FREE_POLL_MS]) = Some y"
      by (subst (asm) waitForPortFree_loop.simps) (simp add: isGatewayHealthy_eq sleep_def perform_def)
    from waitForPortFree_loop_result[OF this] show ?thesis by auto
  qed
qed

lemma waitForPortFree_unhealthy:
  assumes "\<not> respondsHealthy P h"
  shows "waitForPortFree P h = Some (Inr (), h @ [ContainerFetch (MOLTBOT_PORT P)])"
  unfolding waitForPortFree_def
  by (subst waitForPortFree_loop.simps) (simp add: isGatewayHealthy_eq assms PORT_FREE_DEADLINE_MS_def)

section \<open>Lemmas: mounting and starting\<close>

lemma reportStartFailure_eq:
  "reportStartFailure P proc e h = (Inl e, h @ [GetLogs (proc_id proc)])"
  by (cases "getLogs_result P h (proc_id proc)")
     (simp_all add: reportStartFailure_def io_defs getLogs_def)

lemma ensure_start_mount_fails:
  assumes "mountR2Storage_result P h = Inl e"
  shows "ensure_start P s h = (Inl e, s, h @ [MountR2Storage])"
  using assms by (simp add: ensure_start_def mountR2Storage_def perform_def)

lemma ensure_start_spawn_fails:
  assumes "mountR2Storage_result P h = Inr u"
    and "startProcess_result P (h @ [MountR2Storage]) startScript = Inl e"
  shows "ensure_start P s h =
           (Inl e, s\<lparr>lastGatewayStartAttempt := Date_now P (h @ [MountR2Storage])\<rparr>,
            h @ [MountR2Storage, StartProcess startScript (startEnv P)])"
  using assms
  by (simp add: ensure_start_def mountR2Storage_def startProcess_def perform_def Let_def
        startScript_def startEnv_def)

lemma ensure_start_port_fails:
  assumes "mountR2Storage_result P h = Inr u"
    and "startProcess_result P (h @ [MountR2Storage]) startScript = Inr proc"
    and "waitForPort_result P (h @ [MountR2Storage, StartProcess startScript (startEnv P)]) (proc_id proc) = Inl e"
  shows "ensure_start P s h =
           (Inl e,
            s\<lparr>lastGatewayStartAttempt := Date_now P (h @ [MountR2Storage]),
              gatewayProcessId := Some (proc_id proc)\<rparr>,
            h @ [MountR2Storage, StartProcess startScript (startEnv P),
                 WaitForPort (proc_id proc) (MOLTBOT_PORT P) (STARTUP_TIMEOUT_MS P),
                 GetLogs (proc_id proc)])"
  using assms
  by (simp add: ensure_start_def mountR2Storage_def startProcess_def waitForPort_def perform_def Let_def
        startScript_def startEnv_def reportStartFailure_eq)

lemma ensure_start_port_opens:
  assumes "mountR2Storage_result P h = Inr u"
    and "startProcess_result P (h @ [MountR2Storage]) startScript = Inr proc"
    and "waitForPort_result P (h @ [MountR2Storage, StartProcess startScript (startEnv P)]) (proc_id proc) = Inr u'"
  shows "ensure_start P s h =
           (Inr (),
            s\<lparr>lastGatewayStartAttempt := Date_now P (h @ [MountR2Storage]),
              gatewayProcessId := Some (proc_id proc),
              gatewayReady := True,
              lastHealthCheck := Date_now P (h @ [MountR2Storage, StartProcess startScript (startEnv P),
                 WaitForPort (proc_id proc) (MOLTBOT_PORT P) (STARTUP_TIMEOUT_MS P)])\<rparr>,
            h @ [MountR2Storage, StartProcess startScript (startEnv P),
                 WaitForPort (proc_id proc) (MOLTBOT_PORT P) (STARTUP_TIMEOUT_MS P)])"
  using assms
  by (simp add: ensure_start_def mountR2Storage_def startProcess_def waitForPort_def perform_def Let_def
        startScript_def startEnv_def)

lemma spawnedDuring_start:
  assumes "startProcess_result P (h @ [MountR2Storage]) startScript = Inr proc"
  shows "spawnedDuring P h (h @ MountR2Storage # StartProcess startScript env # later) (proc_id proc)"
proof -
  have "prefix (h @ [MountR2Storage]) (h @ MountR2Storage # StartProcess startScript env # later)"
    by simp
  then have "h @ [MountR2Storage] \<in> set (prefixes (h @ MountR2Storage # StartProcess startScript env # later))"
    by (simp only: in_set_prefixes)
  moreover have "prefix h (h @ [MountR2Storage])" by simp
  moreover have "drop (length (h @ [MountR2Storage])) (h @ MountR2Storage # StartProcess startScript env # later)
      = StartProcess startScript env # later" by simp
  ultimately show ?thesis
    unfolding spawnedDuring_def using assms
    by (intro bexI[of _ "h @ [MountR2Storage]"]) (simp_all add: startScript_def)
qed

lemma spawnedDuring_earlier:
  assumes "spawnedDuring P h1 h' pid" and "prefix h h1"
  shows "spawnedDuring P h h' pid"
  using assms unfolding spawnedDuring_def by (meson prefix_order.trans)

lemma ensure_start_outcome:
  assumes "ensure_start P s h = (r, s', h')"
  shows "(\<exists>a. h' = h @ a) \<and>
         (case r of
            Inr u \<Rightarrow> gatewayReady s' \<and> gatewayProcessId s' \<noteq> None
          | Inl e \<Rightarrow> gatewayReady s' = gatewayReady s \<and> lastHealthCheck s' = lastHealthCheck s \<and>
                     (case gatewayProcessId s' of
                        None \<Rightarrow> gatewayProcessId s = None
                      | Some pid \<Rightarrow> gatewayProcessId s = Some pid \<or> spawnedDuring P h h' pid))"
proof (cases "mountR2Storage_result P h")
  case (Inl e)
  from ensure_start_mount_fails[OF this, of s] assms show ?thesis
    by (auto split: option.splits)
next
  case mount: (Inr u)
  show ?thesis
  proof (cases "startProcess_result P (h @ [MountR2Storage]) startScript")
    case (Inl e)
    from ensure_start_spawn_fails[OF mount this, of s] assms show ?thesis
      by (auto split: option.splits)
  next
    case spawn: (Inr proc)
    show ?thesis
    proof (cases "waitForPort_result P (h @ [MountR2Storage, StartProcess startScript (startEnv P)]) (proc_id proc)")
      case (Inl e)
      from ensure_start_port_fails[OF mount spawn this, of s] assms
      have r: "r = Inl e" and s': "gatewayProcessId s' = Some (proc_id proc)"
        "gatewayReady s' = gatewayReady s" "lastHealthCheck s' = lastHealthCheck s"
        and h': "h' = h @ MountR2Storage # StartProcess startScript (startEnv P) #
                 [WaitForPort (proc_id proc) (MOLTBOT_PORT P) (STARTUP_TIMEOUT_MS P),
                 GetLogs (proc_id proc)]"
        by auto
      have "spawnedDuring P h h' (proc_id proc)"
        unfolding h' by (rule spawnedDuring_start[OF spawn])
      with r s' h' show ?thesis by auto
    next
      case (Inr u')
      from ensure_start_port_opens[OF mount spawn this, of s] assms show ?thesis
        by auto
    qed
  qed
qed

section \<open>Lemmas: outcome of an attempt\<close>

lemma attemptOutcome_start: "attemptOutcome P s h (ensure_start P s h)"
proof -
  obtain r s' h' where out: "ensure_start P s h = (r, s', h')" by (cases "ensure_start P s h")
  from ensure_start_outcome[OF this] show ?thesis
    unfolding attemptOutcome_def out by (auto split: sum.splits option.splits)
qed

lemma attemptOutcome_later:
  assumes "attemptOutcome P s1 h1 out" and "prefix h h1"
    and "gatewayReady s1 = gatewayReady s" and "lastHealthCheck s1 = lastHealthCheck s"
    and "gatewayProcessId s1 = gatewayProcessId s \<or> gatewayProcessId s1 = None"
  shows "attemptOutcome P s h out"
proof -
  obtain r s' h' where out: "out = (r, s', h')" by (cases out)
  have pre: "prefix h h'" using assms(1,2) unfolding attemptOutcome_def out by auto
  show ?thesis
  proof (cases r)
    case (Inr u)
    with assms(1) pre show ?thesis unfolding attemptOutcome_def out by simp
  next
    case (Inl e)
    show ?thesis
    proof (cases "gatewayProcessId s'")
      case None
      with assms(1,3,4) pre Inl show ?thesis unfolding attemptOutcome_def out by simp
    next
      case (Some pid)
      with assms(1) Inl have "gatewayProcessId s1 = Some pid \<or> spawnedDuring P h1 h' pid"
        unfolding attemptOutcome_def out by simp
      with assms(5,2) have "gatewayProcessId s = Some pid \<or> spawnedDuring P h h' pid"
        using spawnedDuring_earlier by auto
      with assms(1,3,4) pre Inl Some show ?thesis unfolding attemptOutcome_def out by simp
    qed
  qed
qed

lemma attemptOutcome_fresh:
  assumes "ensure_fresh P s h = Some out"
  shows "attemptOutcome P s h out"
proof (cases "respondsHealthy P h")
  case False
  then have "out = ensure_start P s (h @ [ContainerFetch (MOLTBOT_PORT P)])"
    using assms by (simp add: ensure_fresh_def isGatewayHealthy_eq)
  then have "attemptOutcome P s (h @ [ContainerFetch (MOLTBOT_PORT P)]) out"
    by (simp add: attemptOutcome_start)
  then show ?thesis by (rule attemptOutcome_later) simp_all
next
  case True
  let ?h1 = "h @ [ContainerFetch (MOLTBOT_PORT P)]"
  obtain stopped where "stopGateway P (gatewayProcessId s) ?h1 =
      (Inr (), ?h1 @ StartProcess stopCommand None # stopped)"
    using stopGateway_returns by blast
  then obtain a where stop: "stopGateway P (gatewayProcessId s) ?h1 = (Inr (), ?h1 @ a)"
    by blast
  let ?s1 = "s\<lparr>gatewayProcessId := None\<rparr>"
  from assms True stop obtain y where
    wait: "waitForPortFree P (?h1 @ a) = Some y"
    by (cases "waitForPortFree P (?h1 @ a)") (simp_all add: ensure_fresh_def isGatewayHealthy_eq Let_def)
  from waitForPortFree_result[OF wait] obtain w where
    y: "y = (Inr (), (?h1 @ a) @ ContainerFetch (MOLTBOT_PORT P) # w)" by blast
  let ?h3 = "(?h1 @ a) @ ContainerFetch (MOLTBOT_PORT P) # w"
  have "out = ensure_start P ?s1 ?h3"
    using assms True stop wait unfolding y
    by (simp add: ensure_fresh_def isGatewayHealthy_eq Let_def)
  then have "attemptOutcome P ?s1 ?h3 out" by (simp add: attemptOutcome_start)
  then show ?thesis by (rule attemptOutcome_later) simp_all
qed

lemma attemptOutcome_existing:
  assumes rest: "\<And>s k out. rest s k = Some out \<Longrightarrow> attemptOutcome P s k out"
    and run: "ensure_existing P rest s h = Some out"
  shows "attemptOutcome P s h out"
proof (cases "findExistingMoltbotProcess_result P h")
  case None
  then have "rest s (h @ [FindExistingMoltbotProcess]) = Some out"
    using run by (simp add: ensure_existing_def findExistingMoltbotProcess_def perform_def)
  from rest[OF this] show ?thesis by (rule attemptOutcome_later) simp_all
next
  case (Some existingProcess)
  let ?h1 = "h @ [FindExistingMoltbotProcess]"
  let ?h2 = "?h1 @ [WaitForPort (proc_id existingProcess) (MOLTBOT_PORT P) (STARTUP_TIMEOUT_MS P)]"
  show ?thesis
  proof (cases "waitForPort_result P ?h1 (proc_id existingProcess)")
    case (Inr u)
    then have "out = (Inr (), s\<lparr>gatewayReady := True,
                                       gatewayProcessId := Some (proc_id existingProcess),
                                       lastGatewayStartAttempt := Date_now P ?h2,
                                       lastHealthCheck := Date_now P ?h2\<rparr>, ?h2)"
      using run Some
      by (simp add: ensure_existing_def findExistingMoltbotProcess_def waitForPort_def perform_def)
    then show ?thesis by (simp add: attemptOutcome_def)
  next
    case (Inl e)
    have "io_catch (kill P existingProcess) (\<lambda>killErr. io_return ()) ?h2 =
            (Inr (), ?h2 @ [Kill (proc_id existingProcess)])"
      by (cases "kill_result P ?h2 (proc_id existingProcess)") (simp_all add: io_defs kill_def)
    then have "rest s (?h2 @ [Kill (proc_id existingProcess)]) = Some out"
      using run Some Inl
      by (simp add: ensure_existing_def findExistingMoltbotProcess_def waitForPort_def perform_def)
    from rest[OF this] show ?thesis by (rule attemptOutcome_later) simp_all
  qed
qed

section \<open>Lemmas: ensure\<close>

lemma discoverProcess_eq:
  "discoverProcess P h =
     (case findExistingMoltbotProcess_result P h of
        Some p \<Rightarrow> (Inr (Some p), h @ [FindExistingMoltbotProcess])
      | None \<Rightarrow>
          (Inr (findExistingMoltbotProcess_result P (h @ [FindExistingMoltbotProcess, Sleep 300])),
           h @ [FindExistingMoltbotProcess, Sleep 300, FindExistingMoltbotProcess]))"
  by (simp add: discoverProcess_def findExistingMoltbotProcess_def sleep_def io_defs split: option.splits)

lemma ensure_healthy_outcome:
  assumes "ensure_healthy P s h = (r, s', h')"
  shows "r = Inr () \<and> gatewayReady s' \<and> prefix h h' \<and>
         (gatewayProcessId s' = None \<longrightarrow>
            gatewayProcessId s = None \<and>
            findExistingMoltbotProcess_result P h = None \<and>
            findExistingMoltbotProcess_result P (h @ [FindExistingMoltbotProcess, Sleep 300]) = None)"
  using assms
  by (auto simp: ensure_healthy_def discoverProcess_eq Let_def split: option.splits)

lemma ensure_unfold:
  "ensureGatewayRunningLogic P s h =
     (if gatewayReady s then Some (Inr (), s, h)
      else if respondsHealthy P h then Some (ensure_healthy P s (h @ [ContainerFetch (MOLTBOT_PORT P)]))
      else ensure_existing P (ensure_fresh P) s (h @ [ContainerFetch (MOLTBOT_PORT P)]))"
  by (simp add: ensureGatewayRunningLogic_def isGatewayHealthy_eq)

lemma ensure_attempt:
  assumes "\<not> gatewayReady s" and "\<not> respondsHealthy P h"
    and "ensureGatewayRunningLogic P s h = Some out"
  shows "attemptOutcome P s h out"
proof -
  have "ensure_existing P (ensure_fresh P) s (h @ [ContainerFetch (MOLTBOT_PORT P)]) = Some out"
    using assms by (simp add: ensure_unfold)
  then have "attemptOutcome P s (h @ [ContainerFetch (MOLTBOT_PORT P)]) out"
    by (rule attemptOutcome_existing[rotated]) (rule attemptOutcome_fresh)
  then show ?thesis by (rule attemptOutcome_later) simp_all
qed

lemma ensure_success:
  assumes "ensureGatewayRunningLogic P s h = Some (Inr u, s', h')"
  shows "gatewayReady s' \<and>
         (gatewayProcessId s' = None \<longrightarrow>
            gatewayProcessId s = None \<and>
            (gatewayReady s \<or>
             respondsHealthy P h \<and>
             findExistingMoltbotProcess_result P (h @ [ContainerFetch (MOLTBOT_PORT P)]) = None \<and>
             findExistingMoltbotProcess_result P
               (h @ [ContainerFetch (MOLTBOT_PORT P), FindExistingMoltbotProcess, Sleep 300]) = None))"
proof (cases "gatewayReady s")
  case True
  with assms show ?thesis by (simp add: ensure_unfold)
next
  case notReady: False
  show ?thesis
  proof (cases "respondsHealthy P h")
    case True
    with notReady assms have "ensure_healthy P s (h @ [ContainerFetch (MOLTBOT_PORT P)]) = (Inr u, s', h')"
      by (simp add: ensure_unfold)
    from ensure_healthy_outcome[OF this] True show ?thesis by simp
  next
    case False
    from ensure_attempt[OF notReady False assms] show ?thesis
      by (auto simp: attemptOutcome_def)
  qed
qed

lemma ensure_failure:
  assumes "ensureGatewayRunningLogic P s h = Some (Inl e, s', h')"
  shows "\<not> gatewayReady s' \<and> lastHealthCheck s' = lastHealthCheck s \<and>
         (case gatewayProcessId s' of
            None \<Rightarrow> True
          | Some pid \<Rightarrow> gatewayProcessId s = Some pid \<or> spawnedDuring P h h' pid)"
proof -
  have notReady: "\<not> gatewayReady s" using assms by (auto simp: ensure_unfold split: if_splits)
  have notHealthy: "\<not> respondsHealthy P h"
  proof
    assume "respondsHealthy P h"
    with notReady assms have "ensure_healthy P s (h @ [ContainerFetch (MOLTBOT_PORT P)]) = (Inl e, s', h')"
      by (simp add: ensure_unfold)
    from ensure_healthy_outcome[OF this] show False by simp
  qed
  from ensure_attempt[OF notReady notHealthy assms] notReady show ?thesis
    by (simp add: attemptOutcome_def)
qed

section \<open>Lemmas: the lock as one call sees it\<close>

lemma runWithLock_eq:
  "runWithLock awaited fn s h =
     (case rejection awaited of None \<Rightarrow> fn s h | Some e \<Rightarrow> Some (Inl e, s, h))"
  by (induction awaited rule: rejection.induct) simp_all

lemma rejection_fulfilled: "rejection (map Inr us) = None"
  by (induction us) simp_all

section \<open>Claims about the health probe\<close>

text \<open>
  C4 (counterexample). The claim says the probe is true only when the status is not a
  server error. In \<^verbatim>\<open>src/src/gateway/lifecycle.ts\<close> the probe answers true when the
  port responds with status 503: any status above 0 counts there.
\<close>

theorem isGatewayHealthy_legacy_accepts_503:
  "containerFetch_result proxy_error_platform [] = Settles 1 (Inr 503) \<and>
   isGatewayHealthy_legacy proxy_error_platform [] = Some (Inr True, [ContainerFetch 18789])"
  by (simp add: isGatewayHealthy_legacy_def proxy_error_platform_def cold_platform_def io_defs)

text \<open>
  C4 (amended). The probe never throws. In part_000 it returns true exactly when the
  fetch resolves before the health check timeout of 500 ms with a status from 200 to
  499, and false for every rejection, timeout or other status. In
  \<^verbatim>\<open>src/src/gateway/lifecycle.ts\<close> it returns true exactly when the fetch resolves with
  a status above 0 (server errors included), false when the fetch rejects, and it does
  not return while the fetch does not settle.
\<close>

theorem isGatewayHealthy_policy:
  "isGatewayHealthy P h =
     (Inr (\<exists>d code. containerFetch_result P h = Settles d (Inr code) \<and> d < 500 \<and>
                      200 \<le> code \<and> code < 500),
      h @ [ContainerFetch (MOLTBOT_PORT P)]) \<and>
   isGatewayHealthy_legacy P h =
     (case containerFetch_result P h of
        Never \<Rightarrow> None
      | Settles d r \<Rightarrow>
          Some (Inr (\<exists>code. r = Inr code \<and> 0 < code), h @ [ContainerFetch (MOLTBOT_PORT P)]))"
proof
  show "isGatewayHealthy P h =
     (Inr (\<exists>d code. containerFetch_result P h = Settles d (Inr code) \<and> d < 500 \<and>
                      200 \<le> code \<and> code < 500),
      h @ [ContainerFetch (MOLTBOT_PORT P)])"
    by (auto simp: isGatewayHealthy_eq respondsHealthy_def HEALTH_CHECK_TIMEOUT_MS_def
             split: fetch_result.splits sum.splits)
  show "isGatewayHealthy_legacy P h =
     (case containerFetch_result P h of
        Never \<Rightarrow> None
      | Settles d r \<Rightarrow>
          Some (Inr (\<exists>code. r = Inr code \<and> 0 < code), h @ [ContainerFetch (MOLTBOT_PORT P)]))"
    by (auto simp: isGatewayHealthy_legacy_def io_defs split: fetch_result.splits sum.splits)
qed

section \<open>Claims about a failed start\<close>

lemmas scenario_defs = cold_platform_def boot_failure_platform_def undiscovered_platform_def
  proxy_error_platform_def kill_raises_platform_def running_platform_def initialState_def
  readyState_def mount_failure_platform_def trackedState_def

lemmas engine_defs = ensureGatewayRunningLogic_def ensure_existing_def ensure_fresh_def
  ensure_healthy_def ensure_start_def discoverProcess_def reportStartFailure_def isGatewayHealthy_def
  containerFetch_race_def startScript_def startEnv_def stderrOrEmpty_def HEALTH_CHECK_TIMEOUT_MS_def

text \<open>
  C1 (the code at the failing input). A cold start on which the started process
  \<open>proc-1\<close> never opens its port, while \<open>getLogs\<close> succeeds and shows
  \<open>boot error: disk full\<close> on stderr. Both revisions of the engine fail with the error
  of the port wait; its message does not contain the captured stderr.
\<close>

theorem ensure_startup_failure_drops_stderr:
  "ensureGatewayRunningLogic boot_failure_platform initialState [] =
     Some (Inl (Error ''port 18789 not ready within 180000 ms''),
           \<lparr>gatewayProcessId = Some ''proc-1'', lastGatewayStartAttempt = 5000,
            gatewayReady = False, lastHealthCheck = 0\<rparr>,
           [ContainerFetch 18789, FindExistingMoltbotProcess, ContainerFetch 18789, MountR2Storage,
            StartProcess ''/usr/local/bin/start-moltbot.sh'' None,
            WaitForPort ''proc-1'' 18789 180000, GetLogs ''proc-1'']) \<and>
   ensureGatewayRunningLogic_legacy boot_failure_platform initialState [] =
     Some (Inl (Error ''port 18789 not ready within 180000 ms''),
           \<lparr>gatewayProcessId = Some ''proc-1'', lastGatewayStartAttempt = 4000,
            gatewayReady = False, lastHealthCheck = 0\<rparr>,
           [ContainerFetch 18789, FindExistingMoltbotProcess, MountR2Storage,
            StartProcess ''/usr/local/bin/start-moltbot.sh'' None,
            WaitForPort ''proc-1'' 18789 180000, GetLogs ''proc-1'']) \<and>
   getLogs_result boot_failure_platform
       [ContainerFetch 18789, FindExistingMoltbotProcess, ContainerFetch 18789, MountR2Storage,
        StartProcess ''/usr/local/bin/start-moltbot.sh'' None, WaitForPort ''proc-1'' 18789 180000]
       ''proc-1'' =
     Inr \<lparr>stdout = Some [], stderr = Some ''boot error: disk full''\<rparr> \<and>
   \<not> sublist ''boot error: disk full'' ''port 18789 not ready within 180000 ms''"
proof (intro conjI)
  show "ensureGatewayRunningLogic boot_failure_platform initialState [] =
     Some (Inl (Error ''port 18789 not ready within 180000 ms''),
           \<lparr>gatewayProcessId = Some ''proc-1'', lastGatewayStartAttempt = 5000,
            gatewayReady = False, lastHealthCheck = 0\<rparr>,
           [ContainerFetch 18789, FindExistingMoltbotProcess, ContainerFetch 18789, MountR2Storage,
            StartProcess ''/usr/local/bin/start-moltbot.sh'' None,
            WaitForPort ''proc-1'' 18789 180000, GetLogs ''proc-1''])"
    by (simp add: engine_defs scenario_defs io_defs call_defs)
  show "ensureGatewayRunningLogic_legacy boot_failure_platform initialState [] =
     Some (Inl (Error ''port 18789 not ready within 180000 ms''),
           \<lparr>gatewayProcessId = Some ''proc-1'', lastGatewayStartAttempt = 4000,
            gatewayReady = False, lastHealthCheck = 0\<rparr>,
           [ContainerFetch 18789, FindExistingMoltbotProcess, MountR2Storage,
            StartProcess ''/usr/local/bin/start-moltbot.sh'' None,
            WaitForPort ''proc-1'' 18789 180000, GetLogs ''proc-1''])"
    by (simp add: ensureGatewayRunningLogic_legacy_def isGatewayHealthy_legacy_def
          engine_defs scenario_defs io_defs call_defs)
  show "getLogs_result boot_failure_platform
       [ContainerFetch 18789, FindExistingMoltbotProcess, ContainerFetch 18789, MountR2Storage,
        StartProcess ''/usr/local/bin/start-moltbot.sh'' None, WaitForPort ''proc-1'' 18789 180000]
       ''proc-1'' =
     Inr \<lparr>stdout = Some [], stderr = Some ''boot error: disk full''\<rparr>"
    by (simp add: scenario_defs)
  show "\<not> sublist ''boot error: disk full'' ''port 18789 not ready within 180000 ms''"
    by (simp add: sublist_Cons_right)
qed

lemma respond_failed:
  assumes "respond r = Some (resp, s', h')" and "status resp \<noteq> 200"
  shows "\<exists>e. r = Some (Inl e, s', h') \<and> resp = \<lparr>status = 503, body = LifecycleFailed (message e)\<rparr>"
  using assms by (auto simp: respond_def split: option.splits sum.splits)

lemma restart_unfold:
  "\<exists>stopped cleared.
     stopGateway P (gatewayProcessId s) h = (Inr (), h @ StartProcess stopCommand None # stopped) \<and>
     clearLockFiles P (h @ StartProcess stopCommand None # stopped) =
       (Inr (), (h @ StartProcess stopCommand None # stopped) @
                StartProcess (lockTestCommand (hd GATEWAY_LOCK_PATHS)) None # cleared) \<and>
     restartGatewayLogic P s h =
       (case waitForPortFree P ((h @ StartProcess stopCommand None # stopped) @
                StartProcess (lockTestCommand (hd GATEWAY_LOCK_PATHS)) None # cleared) of
          None \<Rightarrow> None
        | Some (r, h3) \<Rightarrow>
            ensureGatewayRunningLogic P (s\<lparr>gatewayProcessId := None, gatewayReady := False\<rparr>) h3)"
proof -
  obtain stopped where
    stop: "stopGateway P (gatewayProcessId s) h = (Inr (), h @ StartProcess stopCommand None # stopped)"
    using stopGateway_returns by blast
  define h1 where "h1 = h @ StartProcess stopCommand None # stopped"
  obtain more where
    "snd (clearLockFiles_loop P (hd GATEWAY_LOCK_PATHS # tl GATEWAY_LOCK_PATHS) h1) =
       h1 @ StartProcess (lockTestCommand (hd GATEWAY_LOCK_PATHS)) None # more"
    using clearLockFiles_loop_first by blast
  then have clear: "clearLockFiles P h1 =
      (Inr (), h1 @ StartProcess (lockTestCommand (hd GATEWAY_LOCK_PATHS)) None # more)"
    by (simp add: clearLockFiles_eq GATEWAY_LOCK_PATHS_def)
  define h2 where "h2 = h1 @ StartProcess (lockTestCommand (hd GATEWAY_LOCK_PATHS)) None # more"
  have "restartGatewayLogic P s h =
       (case waitForPortFree P h2 of
          None \<Rightarrow> None
        | Some (r, h3) \<Rightarrow>
            ensureGatewayRunningLogic P (s\<lparr>gatewayProcessId := None, gatewayReady := False\<rparr>) h3)"
  proof (cases "waitForPortFree P h2")
    case None
    then show ?thesis
      using stop clear unfolding h1_def[symmetric] h2_def[symmetric]
      by (simp add: restartGatewayLogic_def Let_def)
  next
    case (Some y)
    from waitForPortFree_result[OF this] obtain w where
      "y = (Inr (), h2 @ ContainerFetch (MOLTBOT_PORT P) # w)" by blast
    with Some show ?thesis
      using stop clear unfolding h1_def[symmetric] h2_def[symmetric]
      by (simp add: restartGatewayLogic_def Let_def)
  qed
  with stop clear show ?thesis unfolding h1_def h2_def by blast
qed

lemma restart_failure:
  assumes "restartGatewayLogic P s h = Some (Inl e, s', h')"
  shows "\<not> gatewayReady s' \<and> lastHealthCheck s' = lastHealthCheck s \<and>
         (case gatewayProcessId s' of None \<Rightarrow> True | Some pid \<Rightarrow> spawnedDuring P h h' pid)"
proof -
  from restart_unfold[of P s h] obtain stopped cleared where
    unfold: "restartGatewayLogic P s h =
       (case waitForPortFree P ((h @ StartProcess stopCommand None # stopped) @
                StartProcess (lockTestCommand (hd GATEWAY_LOCK_PATHS)) None # cleared) of
          None \<Rightarrow> None
        | Some (r, h3) \<Rightarrow>
            ensureGatewayRunningLogic P (s\<lparr>gatewayProcessId := None, gatewayReady := False\<rparr>) h3)"
    by blast
  define h2 where "h2 = (h @ StartProcess stopCommand None # stopped) @
                StartProcess (lockTestCommand (hd GATEWAY_LOCK_PATHS)) None # cleared"
  from assms unfold obtain y where wait: "waitForPortFree P h2 = Some y"
    unfolding h2_def[symmetric] by (cases "waitForPortFree P h2") simp_all
  from waitForPortFree_result[OF wait] obtain w where
    y: "y = (Inr (), h2 @ ContainerFetch (MOLTBOT_PORT P) # w)" by blast
  define h3 where "h3 = h2 @ ContainerFetch (MOLTBOT_PORT P) # w"
  have ens: "ensureGatewayRunningLogic P (s\<lparr>gatewayProcessId := None, gatewayReady := False\<rparr>) h3
               = Some (Inl e, s', h')"
    using assms unfold wait y unfolding h2_def[symmetric] h3_def[symmetric] by simp
  have pre: "prefix h h3" unfolding h3_def h2_def by simp
  from ensure_failure[OF ens] have
    a: "\<not> gatewayReady s'" "lastHealthCheck s' = lastHealthCheck s"
    and b: "case gatewayProcessId s' of None \<Rightarrow> True | Some pid \<Rightarrow> spawnedDuring P h3 h' pid"
    by (auto split: option.splits)
  from b pre have "case gatewayProcessId s' of None \<Rightarrow> True | Some pid \<Rightarrow> spawnedDuring P h h' pid"
    by (auto split: option.splits intro: spawnedDuring_earlier)
  with a show ?thesis by simp
qed

text \<open>
  C2 (counterexample). The startup failure scenario, from the initial state, whose
  \<open>gatewayProcessId\<close> is null, for a call that finds the lock slot empty: \<open>ensure\<close>
  answers 503, and the state a later \<open>getState\<close> reads has \<open>gatewayProcessId\<close> pointing
  at \<open>proc-1\<close>, the process spawned during the failed start, and a new
  \<open>lastGatewayStartAttempt\<close>.
\<close>

theorem failed_ensure_leaves_spawned_processId:
  "gatewayProcessId initialState = None \<and>
   handleEnsure boot_failure_platform [] initialState [] =
     Some (\<lparr>status = 503, body = LifecycleFailed ''port 18789 not ready within 180000 ms''\<rparr>,
           \<lparr>gatewayProcessId = Some ''proc-1'', lastGatewayStartAttempt = 5000,
            gatewayReady = False, lastHealthCheck = 0\<rparr>,
           [ContainerFetch 18789, FindExistingMoltbotProcess, ContainerFetch 18789, MountR2Storage,
            StartProcess ''/usr/local/bin/start-moltbot.sh'' None,
            WaitForPort ''proc-1'' 18789 180000, GetLogs ''proc-1'']) \<and>
   handleGetState \<lparr>gatewayProcessId = Some ''proc-1'', lastGatewayStartAttempt = 5000,
                   gatewayReady = False, lastHealthCheck = 0\<rparr> =
     \<lparr>status = 200, body = StateSnapshot False (Some ''proc-1'') (Some 5000) None\<rparr>"
  by (simp add: handleEnsure_def respond_def handleGetState_def
        engine_defs scenario_defs io_defs call_defs)

text \<open>
  C2 (amended). An \<open>ensure\<close> or \<open>restart\<close> call that fails (the response is not 200) is
  in one of two cases.
  \<^item> The call awaited, in \<open>runWithLock\<close>, a promise that was rejected with an error \<open>e\<close>:
    it answers 503 with the message of \<open>e\<close> without running the engine, and it leaves
    every field of the cached state, and the sandbox, as it found them. Every call
    that awaits such a promise is answered so. When the rejected promise is that of a
    run of \<open>ensure\<close> or \<open>restart\<close> that threw \<open>e\<close>, the state it has left, which the
    queued call answers from, has \<open>gatewayReady = false\<close>.
  \<^item> Otherwise the call ran the engine and the engine threw: the cached state has
    \<open>gatewayReady = false\<close> and an unchanged \<open>lastHealthCheck\<close>. The process id is not
    rolled back: after a failed \<open>ensure\<close> it is null, or the value it had when the run
    of the engine began, or the id of a process the start script was spawned as during
    the call; after a failed \<open>restart\<close> it is null or the id of such a process.

  When the failure is the port wait of the freshly started process, the state keeps
  that process's id and the time of the start attempt.
\<close>

theorem failed_attempt_state:
  "(handleEnsure P awaited s h = Some (resp, s', h') \<and> status resp \<noteq> 200 \<longrightarrow>
      (case rejection awaited of
         Some e \<Rightarrow> resp = \<lparr>status = 503, body = LifecycleFailed (message e)\<rparr> \<and> s' = s \<and> h' = h
       | None \<Rightarrow>
           \<not> gatewayReady s' \<and> lastHealthCheck s' = lastHealthCheck s \<and>
           (case gatewayProcessId s' of
              None \<Rightarrow> True
            | Some pid \<Rightarrow> gatewayProcessId s = Some pid \<or> spawnedDuring P h h' pid))) \<and>
   (handleRestart P awaited s h = Some (resp, s', h') \<and> status resp \<noteq> 200 \<longrightarrow>
      (case rejection awaited of
         Some e \<Rightarrow> resp = \<lparr>status = 503, body = LifecycleFailed (message e)\<rparr> \<and> s' = s \<and> h' = h
       | None \<Rightarrow>
           \<not> gatewayReady s' \<and> lastHealthCheck s' = lastHealthCheck s \<and>
           (case gatewayProcessId s' of None \<Rightarrow> True | Some pid \<Rightarrow> spawnedDuring P h h' pid))) \<and>
   (rejection awaited = Some e \<longrightarrow>
      handleEnsure P awaited s h =
        Some (\<lparr>status = 503, body = LifecycleFailed (message e)\<rparr>, s, h) \<and>
      handleRestart P awaited s h =
        Some (\<lparr>status = 503, body = LifecycleFailed (message e)\<rparr>, s, h)) \<and>
   (ensureGatewayRunningLogic P s0 h0 = Some (Inl e, s, h) \<or>
    restartGatewayLogic P s0 h0 = Some (Inl e, s, h) \<longrightarrow>
      \<not> gatewayReady s \<and> lastHealthCheck s = lastHealthCheck s0) \<and>
   (mountR2Storage_result P h = Inr () \<and>
    startProcess_result P (h @ [MountR2Storage]) startScript = Inr proc \<and>
    waitForPort_result P (h @ [MountR2Storage, StartProcess startScript (startEnv P)]) (proc_id proc) = Inl e \<longrightarrow>
      ensure_start P s h =
        (Inl e,
         s\<lparr>lastGatewayStartAttempt := Date_now P (h @ [MountR2Storage]),
           gatewayProcessId := Some (proc_id proc)\<rparr>,
         h @ [MountR2Storage, StartProcess startScript (startEnv P),
              WaitForPort (proc_id proc) (MOLTBOT_PORT P) (STARTUP_TIMEOUT_MS P),
              GetLogs (proc_id proc)]))"
proof (intro conjI impI)
  assume a: "handleEnsure P awaited s h = Some (resp, s', h') \<and> status resp \<noteq> 200"
  then obtain x where
    run: "runWithLock awaited (ensureGatewayRunningLogic P) s h = Some (Inl x, s', h')"
    and resp: "resp = \<lparr>status = 503, body = LifecycleFailed (message x)\<rparr>"
    unfolding handleEnsure_def using respond_failed by blast
  show "case rejection awaited of
         Some e \<Rightarrow> resp = \<lparr>status = 503, body = LifecycleFailed (message e)\<rparr> \<and> s' = s \<and> h' = h
       | None \<Rightarrow>
           \<not> gatewayReady s' \<and> lastHealthCheck s' = lastHealthCheck s \<and>
           (case gatewayProcessId s' of
              None \<Rightarrow> True
            | Some pid \<Rightarrow> gatewayProcessId s = Some pid \<or> spawnedDuring P h h' pid)"
  proof (cases "rejection awaited")
    case None
    with run have "ensureGatewayRunningLogic P s h = Some (Inl x, s', h')"
      by (simp add: runWithLock_eq)
    from ensure_failure[OF this] None show ?thesis by simp
  next
    case (Some e)
    with run resp show ?thesis by (simp add: runWithLock_eq)
  qed
next
  assume a: "handleRestart P awaited s h = Some (resp, s', h') \<and> status resp \<noteq> 200"
  then obtain x where
    run: "runWithLock awaited (restartGatewayLogic P) s h = Some (Inl x, s', h')"
    and resp: "resp = \<lparr>status = 503, body = LifecycleFailed (message x)\<rparr>"
    unfolding handleRestart_def using respond_failed by blast
  show "case rejection awaited of
         Some e \<Rightarrow> resp = \<lparr>status = 503, body = LifecycleFailed (message e)\<rparr> \<and> s' = s \<and> h' = h
       | None \<Rightarrow>
           \<not> gatewayReady s' \<and> lastHealthCheck s' = lastHealthCheck s \<and>
           (case gatewayProcessId s' of None \<Rightarrow> True | Some pid \<Rightarrow> spawnedDuring P h h' pid)"
  proof (cases "rejection awaited")
    case None
    with run have "restartGatewayLogic P s h = Some (Inl x, s', h')"
      by (simp add: runWithLock_eq)
    from restart_failure[OF this] None show ?thesis by simp
  next
    case (Some e)
    with run resp show ?thesis by (simp add: runWithLock_eq)
  qed
next
  assume "rejection awaited = Some e"
  then show "handleEnsure P awaited s h =
        Some (\<lparr>status = 503, body = LifecycleFailed (message e)\<rparr>, s, h)"
    and "handleRestart P awaited s h =
        Some (\<lparr>status = 503, body = LifecycleFailed (message e)\<rparr>, s, h)"
    by (simp_all add: handleEnsure_def handleRestart_def runWithLock_eq respond_def)
next
  assume "ensureGatewayRunningLogic P s0 h0 = Some (Inl e, s, h) \<or>
    restartGatewayLogic P s0 h0 = Some (Inl e, s, h)"
  then have both: "\<not> gatewayReady s \<and> lastHealthCheck s = lastHealthCheck s0"
  proof
    assume "ensureGatewayRunningLogic P s0 h0 = Some (Inl e, s, h)"
    from ensure_failure[OF this] show ?thesis by simp
  next
    assume "restartGatewayLogic P s0 h0 = Some (Inl e, s, h)"
    from restart_failure[OF this] show ?thesis by simp
  qed
  then show "\<not> gatewayReady s" and "lastHealthCheck s = lastHealthCheck s0" by simp_all
next
  assume "mountR2Storage_result P h = Inr () \<and>
    startProcess_result P (h @ [MountR2Storage]) startScript = Inr proc \<and>
    waitForPort_result P (h @ [MountR2Storage, StartProcess startScript (startEnv P)]) (proc_id proc) = Inl e"
  then show "ensure_start P s h =
        (Inl e,
         s\<lparr>lastGatewayStartAttempt := Date_now P (h @ [MountR2Storage]),
           gatewayProcessId := Some (proc_id proc)\<rparr>,
         h @ [MountR2Storage, StartProcess startScript (startEnv P),
              WaitForPort (proc_id proc) (MOLTBOT_PORT P) (STARTUP_TIMEOUT_MS P),
              GetLogs (proc_id proc)])"
    using ensure_start_port_fails by blast
qed

lemmas restart_defs = restartGatewayLogic_def stopGateway_def stopGateway_graceful_def
  stopGateway_forceKill_def stopGateway_fallback_def stopCommand_def GATEWAY_WS_URL_def
  STOP_GRACEFUL_TIMEOUT_MS_def clearLockFiles_def GATEWAY_LOCK_PATHS_def CLAWDBOT_DATA_DIR_def
  lockTestCommand_def lockRmCommand_def lockFileReported_def trim_def isWhiteSpace_def codeUnitsOf_def
  respondsHealthy_def

theorem failed_attempt_state_witness:
  "status (fst (the (handleEnsure boot_failure_platform [] initialState []))) = 503 \<and>
   \<not> gatewayReady (fst (snd (the (handleEnsure boot_failure_platform [] initialState [])))) \<and>
   gatewayProcessId (fst (snd (the (handleEnsure boot_failure_platform [] initialState [])))) = Some ''proc-1'' \<and>
   spawnedDuring boot_failure_platform []
     (snd (snd (the (handleEnsure boot_failure_platform [] initialState [])))) ''proc-1'' \<and>
   status (fst (the (handleRestart boot_failure_platform [] initialState []))) = 503 \<and>
   \<not> gatewayReady (fst (snd (the (handleRestart boot_failure_platform [] initialState [])))) \<and>
   gatewayProcessId (fst (snd (the (handleRestart boot_failure_platform [] initialState [])))) = Some ''proc-1'' \<and>
   spawnedDuring boot_failure_platform []
     (snd (snd (the (handleRestart boot_failure_platform [] initialState [])))) ''proc-1'' \<and>
   ensureGatewayRunningLogic mount_failure_platform trackedState [] =
     Some (Inl (Error ''mount failed''), trackedState,
           [ContainerFetch 18789, FindExistingMoltbotProcess, ContainerFetch 18789, MountR2Storage]) \<and>
   handleRestart mount_failure_platform [Inr (), Inl (Error ''mount failed'')] trackedState
       [ContainerFetch 18789, FindExistingMoltbotProcess, ContainerFetch 18789, MountR2Storage] =
     Some (\<lparr>status = 503, body = LifecycleFailed ''mount failed''\<rparr>, trackedState,
           [ContainerFetch 18789, FindExistingMoltbotProcess, ContainerFetch 18789, MountR2Storage]) \<and>
   handleEnsure mount_failure_platform [Inr (), Inl (Error ''mount failed'')] trackedState
       [ContainerFetch 18789, FindExistingMoltbotProcess, ContainerFetch 18789, MountR2Storage] =
     Some (\<lparr>status = 503, body = LifecycleFailed ''mount failed''\<rparr>, trackedState,
           [ContainerFetch 18789, FindExistingMoltbotProcess, ContainerFetch 18789, MountR2Storage]) \<and>
   \<not> gatewayReady trackedState \<and>
   gatewayProcessId trackedState = Some ''proc-0'' \<and>
   ensure_start boot_failure_platform initialState [] =
     (Inl (Error ''port 18789 not ready within 180000 ms''),
      \<lparr>gatewayProcessId = Some ''proc-1'', lastGatewayStartAttempt = 2000,
       gatewayReady = False, lastHealthCheck = 0\<rparr>,
      [MountR2Storage, StartProcess ''/usr/local/bin/start-moltbot.sh'' None,
       WaitForPort ''proc-1'' 18789 180000, GetLogs ''proc-1''])"
proof -
  define P where "P = boot_failure_platform"
  define e where "e = the (handleEnsure P [] initialState [])"
  define r where "r = the (handleRestart P [] initialState [])"
  have pid_e: "gatewayProcessId (fst (snd e)) = Some ''proc-1''" and st_e: "status (fst e) = 503"
    unfolding e_def P_def
    by (simp_all add: handleEnsure_def respond_def engine_defs scenario_defs io_defs call_defs)
  have run_e: "handleEnsure P [] initialState [] = Some (fst e, fst (snd e), snd (snd e))"
    unfolding e_def P_def
    by (simp add: handleEnsure_def respond_def engine_defs scenario_defs io_defs call_defs)
  have pid_r: "gatewayProcessId (fst (snd r)) = Some ''proc-1''" and st_r: "status (fst r) = 503"
    unfolding r_def P_def
    by (simp_all add: handleRestart_def respond_def restart_defs engine_defs scenario_defs io_defs
          call_defs waitForPortFree_unhealthy)
  have run_r: "handleRestart P [] initialState [] = Some (fst r, fst (snd r), snd (snd r))"
    unfolding r_def P_def
    by (simp add: handleRestart_def respond_def restart_defs engine_defs scenario_defs io_defs
          call_defs waitForPortFree_unhealthy)
  have start: "mountR2Storage_result P [] = Inr () \<and>
      startProcess_result P ([] @ [MountR2Storage]) startScript =
        Inr \<lparr>proc_id = ''proc-1'', proc_status = ''starting''\<rparr> \<and>
      waitForPort_result P ([] @ [MountR2Storage, StartProcess startScript (startEnv P)])
        (proc_id \<lparr>proc_id = ''proc-1'', proc_status = ''starting''\<rparr>) =
        Inl (Error ''port 18789 not ready within 180000 ms'')"
    unfolding P_def by (simp add: scenario_defs)
  note T = failed_attempt_state[of P "[]" initialState "[]"]
  from T[of "fst e" "fst (snd e)" "snd (snd e)"] run_e st_e pid_e
  have A: "\<not> gatewayReady (fst (snd e))" "spawnedDuring P [] (snd (snd e)) ''proc-1''"
    by (simp_all add: initialState_def)
  from T[of "fst r" "fst (snd r)" "snd (snd r)"] run_r st_r pid_r
  have B: "\<not> gatewayReady (fst (snd r))" "spawnedDuring P [] (snd (snd r)) ''proc-1''"
    by (simp_all add: initialState_def)
  from T[of "fst e" "fst (snd e)" "snd (snd e)" "Error ''port 18789 not ready within 180000 ms''"
            initialState "[]" "\<lparr>proc_id = ''proc-1'', proc_status = ''starting''\<rparr>"] start
  have C: "ensure_start P initialState [] =
     (Inl (Error ''port 18789 not ready within 180000 ms''),
      \<lparr>gatewayProcessId = Some ''proc-1'', lastGatewayStartAttempt = 2000,
       gatewayReady = False, lastHealthCheck = 0\<rparr>,
      [MountR2Storage, StartProcess ''/usr/local/bin/start-moltbot.sh'' None,
       WaitForPort ''proc-1'' 18789 180000, GetLogs ''proc-1''])"
    unfolding P_def by (simp add: scenario_defs startScript_def startEnv_def)
  let ?h = "[ContainerFetch 18789, FindExistingMoltbotProcess, ContainerFetch 18789, MountR2Storage]"
  let ?err = "Error ''mount failed''"
  have mount: "ensureGatewayRunningLogic mount_failure_platform trackedState [] =
     Some (Inl ?err, trackedState, ?h)"
    by (simp add: engine_defs scenario_defs io_defs call_defs)
  have rej: "rejection [Inr (), Inl ?err] = Some ?err" by simp
  note Q = failed_attempt_state[of mount_failure_platform "[Inr (), Inl ?err]" trackedState ?h
             "\<lparr>status = 503, body = LifecycleFailed ''mount failed''\<rparr>" trackedState ?h
             ?err trackedState "[]"]
  from Q[THEN conjunct2, THEN conjunct2, THEN conjunct1, THEN mp, OF rej]
  have D: "handleEnsure mount_failure_platform [Inr (), Inl ?err] trackedState ?h =
        Some (\<lparr>status = 503, body = LifecycleFailed ''mount failed''\<rparr>, trackedState, ?h)"
    and E: "handleRestart mount_failure_platform [Inr (), Inl ?err] trackedState ?h =
        Some (\<lparr>status = 503, body = LifecycleFailed ''mount failed''\<rparr>, trackedState, ?h)"
    by simp_all
  from Q[THEN conjunct2, THEN conjunct2, THEN conjunct2, THEN conjunct1] mount
  have F: "\<not> gatewayReady trackedState" by simp
  have G: "gatewayProcessId trackedState = Some ''proc-0''" by (simp add: trackedState_def)
  from A B C D E F G mount st_e st_r pid_e pid_r show ?thesis
    unfolding e_def r_def P_def by simp
qed

section \<open>Claims about a successful ensure\<close>

text \<open>
  C3 (counterexample). The port answers with status 200 and discovery finds no matching
  process on either attempt: \<open>ensure\<close> succeeds from the initial state, sets
  \<open>gatewayReady\<close>, and leaves \<open>gatewayProcessId\<close> null; \<open>getState\<close> then reports ready with
  a null process id.
\<close>

theorem ensure_ready_with_null_processId:
  "handleEnsure undiscovered_platform [] initialState [] =
     Some (\<lparr>status = 200, body = LifecycleOk True None\<rparr>,
           \<lparr>gatewayProcessId = None, lastGatewayStartAttempt = 0,
            gatewayReady = True, lastHealthCheck = 2000\<rparr>,
           [ContainerFetch 18789, FindExistingMoltbotProcess, Sleep 300, FindExistingMoltbotProcess]) \<and>
   handleGetState \<lparr>gatewayProcessId = None, lastGatewayStartAttempt = 0,
                   gatewayReady = True, lastHealthCheck = 2000\<rparr> =
     \<lparr>status = 200, body = StateSnapshot True None None (Some 2000)\<rparr>"
  by (simp add: handleEnsure_def respond_def handleGetState_def
        engine_defs scenario_defs io_defs call_defs)

text \<open>
  C3 (amended). Whenever \<open>ensure\<close> completes successfully the resulting state has
  \<open>gatewayReady = true\<close>. Its process id is non-null except when it was null before the
  call and either the state was already ready (fast path), or the first health probe
  was healthy and discovery found no matching process on both attempts; in these cases
  the process id keeps its previous value, null.
\<close>

theorem ensure_success_processId:
  "ensureGatewayRunningLogic P s h = Some (Inr u, s', h') \<Longrightarrow>
     gatewayReady s' \<and>
     (gatewayProcessId s' = None \<longrightarrow>
        gatewayProcessId s = None \<and>
        (gatewayReady s \<or>
         respondsHealthy P h \<and>
         findExistingMoltbotProcess_result P (h @ [ContainerFetch (MOLTBOT_PORT P)]) = None \<and>
         findExistingMoltbotProcess_result P
           (h @ [ContainerFetch (MOLTBOT_PORT P), FindExistingMoltbotProcess, Sleep 300]) = None))"
  by (rule ensure_success)

theorem ensure_success_processId_witness:
  "ensureGatewayRunningLogic cold_platform initialState [] =
     Some (Inr (),
           \<lparr>gatewayProcessId = Some ''proc-1'', lastGatewayStartAttempt = 5000,
            gatewayReady = True, lastHealthCheck = 7000\<rparr>,
           [ContainerFetch 18789, FindExistingMoltbotProcess, ContainerFetch 18789, MountR2Storage,
            StartProcess ''/usr/local/bin/start-moltbot.sh'' None, WaitForPort ''proc-1'' 18789 180000]) \<and>
   ensureGatewayRunningLogic undiscovered_platform initialState [] =
     Some (Inr (),
           \<lparr>gatewayProcessId = None, lastGatewayStartAttempt = 0,
            gatewayReady = True, lastHealthCheck = 2000\<rparr>,
           [ContainerFetch 18789, FindExistingMoltbotProcess, Sleep 300, FindExistingMoltbotProcess]) \<and>
   respondsHealthy undiscovered_platform [] \<and>
   findExistingMoltbotProcess_result undiscovered_platform [ContainerFetch 18789] = None \<and>
   findExistingMoltbotProcess_result undiscovered_platform
     [ContainerFetch 18789, FindExistingMoltbotProcess, Sleep 300] = None"
proof -
  have cold: "ensureGatewayRunningLogic cold_platform initialState [] =
     Some (Inr (),
           \<lparr>gatewayProcessId = Some ''proc-1'', lastGatewayStartAttempt = 5000,
            gatewayReady = True, lastHealthCheck = 7000\<rparr>,
           [ContainerFetch 18789, FindExistingMoltbotProcess, ContainerFetch 18789, MountR2Storage,
            StartProcess ''/usr/local/bin/start-moltbot.sh'' None, WaitForPort ''proc-1'' 18789 180000])"
    by (simp add: engine_defs scenario_defs io_defs call_defs)
  have und: "ensureGatewayRunningLogic undiscovered_platform initialState [] =
     Some (Inr (),
           \<lparr>gatewayProcessId = None, lastGatewayStartAttempt = 0,
            gatewayReady = True, lastHealthCheck = 2000\<rparr>,
           [ContainerFetch 18789, FindExistingMoltbotProcess, Sleep 300, FindExistingMoltbotProcess])"
    by (simp add: engine_defs scenario_defs io_defs call_defs)
  have port: "MOLTBOT_PORT undiscovered_platform = 18789" by (simp add: scenario_defs)
  from ensure_success_processId[OF und] port
  have "respondsHealthy undiscovered_platform [] \<and>
   findExistingMoltbotProcess_result undiscovered_platform [ContainerFetch 18789] = None \<and>
   findExistingMoltbotProcess_result undiscovered_platform
     [ContainerFetch 18789, FindExistingMoltbotProcess, Sleep 300] = None"
    by (simp add: initialState_def)
  with cold und show ?thesis by simp
qed

section \<open>Claims about the lock files\<close>

lemma clearLockFiles_legacy_calls:
  "\<exists>added. clearLockFiles_legacy P h = (Inr (), h @ StartProcess lockSweepCommand_legacy None # added) \<and>
           (added = [] \<or> (\<exists>pid. added = [WaitForProcess pid 5000]))"
proof (cases "startProcess_result P h lockSweepCommand_legacy")
  case (Inl e)
  then have "clearLockFiles_legacy P h = (Inr (), h @ StartProcess lockSweepCommand_legacy None # [])"
    by (simp add: clearLockFiles_legacy_def io_defs call_defs)
  then show ?thesis by blast
next
  case (Inr proc)
  then have "clearLockFiles_legacy P h =
      (Inr (), h @ StartProcess lockSweepCommand_legacy None # [WaitForProcess (proc_id proc) 5000])"
    by (cases "waitForProcess_result P (h @ [StartProcess lockSweepCommand_legacy None]) (proc_id proc)")
       (simp_all add: clearLockFiles_legacy_def io_defs call_defs)
  then show ?thesis by blast
qed

lemma lockSweepCommand_legacy_literal:
  \<open>lockSweepCommand_legacy =
     ''rm -f /tmp/clawdbot-gateway.lock "/root/.clawdbot/gateway.lock" /root/.clawdbot/*.lock 2>/dev/null || true''\<close>
  by (simp add: lockSweepCommand_legacy_def CLAWDBOT_DATA_DIR_def)

lemma lockCommands_literal:
  \<open>lockTestCommand ''/tmp/clawdbot-gateway.lock'' =
     ''test -f "/tmp/clawdbot-gateway.lock" && echo "/tmp/clawdbot-gateway.lock" || true''\<close>
  \<open>lockRmCommand ''/tmp/clawdbot-gateway.lock'' = ''rm -f "/tmp/clawdbot-gateway.lock"''\<close>
  \<open>lockTestCommand ''/root/.clawdbot/gateway.lock'' =
     ''test -f "/root/.clawdbot/gateway.lock" && echo "/root/.clawdbot/gateway.lock" || true''\<close>
  \<open>lockRmCommand ''/root/.clawdbot/gateway.lock'' = ''rm -f "/root/.clawdbot/gateway.lock"''\<close>
  by (simp_all add: lockTestCommand_def lockRmCommand_def)

lemma lockPaths_literal:
  "GATEWAY_LOCK_PATHS = [''/tmp/clawdbot-gateway.lock'', ''/root/.clawdbot/gateway.lock'']"
  by (simp add: GATEWAY_LOCK_PATHS_def CLAWDBOT_DATA_DIR_def)

lemma lockCall_two:
  "lockCall [p, q] (StartProcess command env) \<Longrightarrow>
     command \<in> {lockTestCommand p, lockRmCommand p, lockTestCommand q, lockRmCommand q}"
  by auto

lemma lockCommands_no_wildcard:
  \<open>CHR ''*'' \<notin> set ''test -f "/tmp/clawdbot-gateway.lock" && echo "/tmp/clawdbot-gateway.lock" || true''\<close>
  \<open>CHR ''*'' \<notin> set ''rm -f "/tmp/clawdbot-gateway.lock"''\<close>
  \<open>CHR ''*'' \<notin> set ''test -f "/root/.clawdbot/gateway.lock" && echo "/root/.clawdbot/gateway.lock" || true''\<close>
  \<open>CHR ''*'' \<notin> set ''rm -f "/root/.clawdbot/gateway.lock"''\<close>
  by simp_all

text \<open>
  C5 (counterexample). \<open>clearLockFiles\<close> of \<^verbatim>\<open>src/src/gateway/lifecycle.ts\<close> on the cold
  start: the one command it runs names the two lock paths and then the wildcard
  \<^verbatim>\<open>/root/.clawdbot/*.lock\<close>, a sweep of the data directory.
\<close>

theorem clearLockFiles_legacy_sweeps_wildcard:
  \<open>clearLockFiles_legacy cold_platform [] =
     (Inr (),
      [StartProcess
         ''rm -f /tmp/clawdbot-gateway.lock "/root/.clawdbot/gateway.lock" /root/.clawdbot/*.lock 2>/dev/null || true''
         None,
       WaitForProcess ''proc-1'' 5000])\<close>
  by (simp add: clearLockFiles_legacy_def lockSweepCommand_legacy_def CLAWDBOT_DATA_DIR_def
        scenario_defs io_defs call_defs)

text \<open>
  C5 (amended). \<open>clearLockFiles\<close> of part_000 never throws and, on every invocation,
  starts no command but \<open>test -f\<close> and \<open>rm -f\<close> on the two enumerated lock paths
  \<^verbatim>\<open>/tmp/clawdbot-gateway.lock\<close> and \<^verbatim>\<open>/root/.clawdbot/gateway.lock\<close>; none of its commands
  holds a wildcard. Every \<open>rm -f\<close> it starts comes directly after the \<open>test -f\<close> of the
  same path, the wait for that process and the reading of its logs, and the standard
  output read there, trimmed, is that path. \<open>clearLockFiles\<close> of
  \<^verbatim>\<open>src/src/gateway/lifecycle.ts\<close> never throws and starts one command, the \<open>rm -f\<close> that
  names the two paths and the wildcard \<^verbatim>\<open>/root/.clawdbot/*.lock\<close>; besides, it only waits
  for that process.
\<close>

theorem clearLockFiles_enumerated_paths:
  \<open>(\<exists>added. clearLockFiles P h = (Inr (), h @ added) \<and>
      (\<forall>c \<in> set added.
         lockCall [''/tmp/clawdbot-gateway.lock'', ''/root/.clawdbot/gateway.lock''] c \<and>
         (\<forall>command env. c = StartProcess command env \<longrightarrow>
            CHR ''*'' \<notin> set command \<and>
            command \<in> {''test -f "/tmp/clawdbot-gateway.lock" && echo "/tmp/clawdbot-gateway.lock" || true'',
                        ''rm -f "/tmp/clawdbot-gateway.lock"'',
                        ''test -f "/root/.clawdbot/gateway.lock" && echo "/root/.clawdbot/gateway.lock" || true'',
                        ''rm -f "/root/.clawdbot/gateway.lock"''})) \<and>
      (\<forall>pre post lockPath env.
         added = pre @ StartProcess (lockRmCommand lockPath) env # post \<longrightarrow>
         (\<exists>before pid l.
            pre = before @ [StartProcess (lockTestCommand lockPath) None, WaitForProcess pid 3000, GetLogs pid] \<and>
            getLogs_result P (h @ before @ [StartProcess (lockTestCommand lockPath) None, WaitForProcess pid 3000]) pid
              = Inr l \<and>
            map_option trim (stdout l) = Some (codeUnitsOf lockPath)))) \<and>
   (\<exists>added. clearLockFiles_legacy P h =
                (Inr (), h @ StartProcess lockSweepCommand_legacy None # added) \<and>
            (added = [] \<or> (\<exists>pid. added = [WaitForProcess pid 5000]))) \<and>
   lockSweepCommand_legacy =
     ''rm -f /tmp/clawdbot-gateway.lock "/root/.clawdbot/gateway.lock" /root/.clawdbot/*.lock 2>/dev/null || true''\<close>
proof (intro conjI)
  let ?paths = "[''/tmp/clawdbot-gateway.lock'', ''/root/.clawdbot/gateway.lock'']"
  let ?commands = \<open>{''test -f "/tmp/clawdbot-gateway.lock" && echo "/tmp/clawdbot-gateway.lock" || true'',
                    ''rm -f "/tmp/clawdbot-gateway.lock"'',
                    ''test -f "/root/.clawdbot/gateway.lock" && echo "/root/.clawdbot/gateway.lock" || true'',
                    ''rm -f "/root/.clawdbot/gateway.lock"''}\<close>
  obtain added where a: "snd (clearLockFiles_loop P GATEWAY_LOCK_PATHS h) = h @ added"
    and b: "\<forall>c \<in> set added. lockCall GATEWAY_LOCK_PATHS c"
    and rm: "rmAfterReport P h added"
    using clearLockFiles_loop_calls by blast
  have run: "clearLockFiles P h = (Inr (), h @ added)"
    using a by (simp add: clearLockFiles_eq)
  have each: "lockCall ?paths c \<and>
         (\<forall>command env. c = StartProcess command env \<longrightarrow> CHR ''*'' \<notin> set command \<and> command \<in> ?commands)"
    if "c \<in> set added" for c
  proof -
    from b that have "lockCall GATEWAY_LOCK_PATHS c" by (rule bspec)
    then have l: "lockCall ?paths c" by (simp only: lockPaths_literal)
    show ?thesis
    proof (intro conjI allI impI)
      show "lockCall ?paths c" by (rule l)
    next
      fix command env assume "c = StartProcess command env"
      with l have "lockCall ?paths (StartProcess command env)" by (simp only:)
      then have "command \<in> {lockTestCommand ''/tmp/clawdbot-gateway.lock'', lockRmCommand ''/tmp/clawdbot-gateway.lock'',
          lockTestCommand ''/root/.clawdbot/gateway.lock'', lockRmCommand ''/root/.clawdbot/gateway.lock''}"
        by (rule lockCall_two)
      then have m: "command \<in> ?commands"
        by (simp only: lockCommands_literal)
      then show "command \<in> ?commands" .
      from m have \<open>command = ''test -f "/tmp/clawdbot-gateway.lock" && echo "/tmp/clawdbot-gateway.lock" || true'' \<or>
                   command = ''rm -f "/tmp/clawdbot-gateway.lock"'' \<or>
                   command = ''test -f "/root/.clawdbot/gateway.lock" && echo "/root/.clawdbot/gateway.lock" || true'' \<or>
                   command = ''rm -f "/root/.clawdbot/gateway.lock"''\<close>
        by (simp only: insert_iff empty_iff simp_thms)
      then show "CHR ''*'' \<notin> set command"
        using lockCommands_no_wildcard by (elim disjE) (simp_all only: not_False_eq_True)
    qed
  qed
  have calls: "\<forall>c \<in> set added.
         lockCall ?paths c \<and>
         (\<forall>command env. c = StartProcess command env \<longrightarrow> CHR ''*'' \<notin> set command \<and> command \<in> ?commands)"
  proof (rule ballI)
    fix c assume "c \<in> set added"
    then show "lockCall ?paths c \<and>
         (\<forall>command env. c = StartProcess command env \<longrightarrow> CHR ''*'' \<notin> set command \<and> command \<in> ?commands)"
      by (rule each)
  qed
  have after: "\<forall>pre post lockPath env.
         added = pre @ StartProcess (lockRmCommand lockPath) env # post \<longrightarrow>
         (\<exists>before pid l.
            pre = before @ [StartProcess (lockTestCommand lockPath) None, WaitForProcess pid 3000, GetLogs pid] \<and>
            getLogs_result P (h @ before @ [StartProcess (lockTestCommand lockPath) None, WaitForProcess pid 3000]) pid
              = Inr l \<and>
            map_option trim (stdout l) = Some (codeUnitsOf lockPath))"
    using rm by (simp only: rmAfterReport_def lockFileReported_def)
  show "\<exists>added. clearLockFiles P h = (Inr (), h @ added) \<and>
      (\<forall>c \<in> set added.
         lockCall ?paths c \<and>
         (\<forall>command env. c = StartProcess command env \<longrightarrow> CHR ''*'' \<notin> set command \<and> command \<in> ?commands)) \<and>
      (\<forall>pre post lockPath env.
         added = pre @ StartProcess (lockRmCommand lockPath) env # post \<longrightarrow>
         (\<exists>before pid l.
            pre = before @ [StartProcess (lockTestCommand lockPath) None, WaitForProcess pid 3000, GetLogs pid] \<and>
            getLogs_result P (h @ before @ [StartProcess (lockTestCommand lockPath) None, WaitForProcess pid 3000]) pid
              = Inr l \<and>
            map_option trim (stdout l) = Some (codeUnitsOf lockPath)))"
    by (rule exI[of _ added], rule conjI[OF run], rule conjI[OF calls], rule after)
next
  show "\<exists>added. clearLockFiles_legacy P h =
                (Inr (), h @ StartProcess lockSweepCommand_legacy None # added) \<and>
            (added = [] \<or> (\<exists>pid. added = [WaitForProcess pid 5000]))"
    by (rule clearLockFiles_legacy_calls)
next
  show \<open>lockSweepCommand_legacy =
     ''rm -f /tmp/clawdbot-gateway.lock "/root/.clawdbot/gateway.lock" /root/.clawdbot/*.lock 2>/dev/null || true''\<close>
    by (rule lockSweepCommand_legacy_literal)
qed

theorem clearLockFiles_enumerated_paths_witness:
  \<open>clearLockFiles stale_lock_platform [] =
     (Inr (),
      [StartProcess ''test -f "/tmp/clawdbot-gateway.lock" && echo "/tmp/clawdbot-gateway.lock" || true'' None,
       WaitForProcess ''proc-1'' 3000, GetLogs ''proc-1'',
       StartProcess ''rm -f "/tmp/clawdbot-gateway.lock"'' None,
       WaitForProcess ''proc-1'' 3000,
       StartProcess ''test -f "/root/.clawdbot/gateway.lock" && echo "/root/.clawdbot/gateway.lock" || true'' None,
       WaitForProcess ''proc-1'' 3000, GetLogs ''proc-1'']) \<and>
   lockCall [''/tmp/clawdbot-gateway.lock'', ''/root/.clawdbot/gateway.lock'']
     (StartProcess ''rm -f "/tmp/clawdbot-gateway.lock"'' None) \<and>
   CHR ''*'' \<notin> set ''rm -f "/tmp/clawdbot-gateway.lock"'' \<and>
   getLogs_result stale_lock_platform
     [StartProcess (lockTestCommand ''/tmp/clawdbot-gateway.lock'') None, WaitForProcess ''proc-1'' 3000]
     ''proc-1'' =
     Inr \<lparr>stdout = Some (codeUnitsOf ''/tmp/clawdbot-gateway.lock'' @ [0x00A0, 0x000A]), stderr = Some []\<rparr> \<and>
   trim (codeUnitsOf ''/tmp/clawdbot-gateway.lock'' @ [0x00A0, 0x000A]) =
     codeUnitsOf ''/tmp/clawdbot-gateway.lock''\<close>
proof -
  let ?paths = "[''/tmp/clawdbot-gateway.lock'', ''/root/.clawdbot/gateway.lock'']"
  let ?commands = \<open>{''test -f "/tmp/clawdbot-gateway.lock" && echo "/tmp/clawdbot-gateway.lock" || true'',
                    ''rm -f "/tmp/clawdbot-gateway.lock"'',
                    ''test -f "/root/.clawdbot/gateway.lock" && echo "/root/.clawdbot/gateway.lock" || true'',
                    ''rm -f "/root/.clawdbot/gateway.lock"''}\<close>
  let ?p = "''/tmp/clawdbot-gateway.lock''"
  let ?rm = \<open>''rm -f "/tmp/clawdbot-gateway.lock"''\<close>
  let ?test = \<open>''test -f "/tmp/clawdbot-gateway.lock" && echo "/tmp/clawdbot-gateway.lock" || true''\<close>
  let ?post = \<open>[WaitForProcess ''proc-1'' 3000,
       StartProcess ''test -f "/root/.clawdbot/gateway.lock" && echo "/root/.clawdbot/gateway.lock" || true'' None,
       WaitForProcess ''proc-1'' 3000, GetLogs ''proc-1'']\<close>
  let ?trace = \<open>[StartProcess ''test -f "/tmp/clawdbot-gateway.lock" && echo "/tmp/clawdbot-gateway.lock" || true'' None,
       WaitForProcess ''proc-1'' 3000, GetLogs ''proc-1'',
       StartProcess ''rm -f "/tmp/clawdbot-gateway.lock"'' None,
       WaitForProcess ''proc-1'' 3000,
       StartProcess ''test -f "/root/.clawdbot/gateway.lock" && echo "/root/.clawdbot/gateway.lock" || true'' None,
       WaitForProcess ''proc-1'' 3000, GetLogs ''proc-1'']\<close>
  let ?logs = "\<lparr>stdout = Some (codeUnitsOf ''/tmp/clawdbot-gateway.lock'' @ [0x00A0, 0x000A]), stderr = Some []\<rparr>"
  have run: "clearLockFiles stale_lock_platform [] = (Inr (), ?trace)"
    by (simp add: restart_defs stale_lock_platform_def scenario_defs io_defs call_defs)
  have logs: "\<And>k pid. getLogs_result stale_lock_platform k pid = Inr ?logs"
    by (simp add: stale_lock_platform_def scenario_defs)
  have rmLit: "lockRmCommand ?p = ?rm" and testLit: "lockTestCommand ?p = ?test"
    by (simp_all only: lockCommands_literal)
  from clearLockFiles_enumerated_paths[of stale_lock_platform "[]", THEN conjunct1]
  obtain added where ab: "clearLockFiles stale_lock_platform [] = (Inr (), [] @ added) \<and>
      (\<forall>c \<in> set added.
         lockCall ?paths c \<and>
         (\<forall>command env. c = StartProcess command env \<longrightarrow> CHR ''*'' \<notin> set command \<and> command \<in> ?commands)) \<and>
      (\<forall>pre post lockPath env.
         added = pre @ StartProcess (lockRmCommand lockPath) env # post \<longrightarrow>
         (\<exists>before pid l.
            pre = before @ [StartProcess (lockTestCommand lockPath) None, WaitForProcess pid 3000, GetLogs pid] \<and>
            getLogs_result stale_lock_platform
              ([] @ before @ [StartProcess (lockTestCommand lockPath) None, WaitForProcess pid 3000]) pid = Inr l \<and>
            map_option trim (stdout l) = Some (codeUnitsOf lockPath)))"
    by (rule exE)
  from ab[THEN conjunct1] run have eq: "added = ?trace" by (simp only: append_Nil prod.inject)
  have mem: "StartProcess ?rm None \<in> set added" unfolding eq by simp
  from ab[THEN conjunct2, THEN conjunct1] mem have both: "lockCall ?paths (StartProcess ?rm None) \<and>
         (\<forall>command env. StartProcess ?rm None = StartProcess command env \<longrightarrow>
            CHR ''*'' \<notin> set command \<and> command \<in> ?commands)"
    by (rule bspec)
  from both[THEN conjunct2] have "\<forall>env. StartProcess ?rm None = StartProcess ?rm env \<longrightarrow>
            CHR ''*'' \<notin> set ?rm \<and> ?rm \<in> ?commands"
    by (rule spec)
  then have "StartProcess ?rm None = StartProcess ?rm None \<longrightarrow> CHR ''*'' \<notin> set ?rm \<and> ?rm \<in> ?commands"
    by (rule spec)
  then have "CHR ''*'' \<notin> set ?rm \<and> ?rm \<in> ?commands" by (simp only: simp_thms)
  then have star: "CHR ''*'' \<notin> set ?rm" by (rule conjunct1)
  have split: "added = [StartProcess (lockTestCommand ?p) None, WaitForProcess ''proc-1'' 3000, GetLogs ''proc-1'']
                 @ StartProcess (lockRmCommand ?p) None # ?post"
    unfolding eq by (simp only: rmLit testLit append_Cons append_Nil)
  from ab[THEN conjunct2, THEN conjunct2, rule_format, OF split]
  obtain before pid l where
    pre: "[StartProcess (lockTestCommand ?p) None, WaitForProcess ''proc-1'' 3000, GetLogs ''proc-1''] =
            before @ [StartProcess (lockTestCommand ?p) None, WaitForProcess pid 3000, GetLogs pid]"
    and got: "getLogs_result stale_lock_platform
              ([] @ before @ [StartProcess (lockTestCommand ?p) None, WaitForProcess pid 3000]) pid = Inr l"
    and reported: "map_option trim (stdout l) = Some (codeUnitsOf ?p)"
    by blast
  from pre have before: "before = []" and pid: "pid = ''proc-1''" by simp_all
  from got have l: "l = ?logs" unfolding logs by simp
  from got before pid l have read: "getLogs_result stale_lock_platform
     [StartProcess (lockTestCommand ?p) None, WaitForProcess ''proc-1'' 3000] ''proc-1'' = Inr ?logs"
    by simp
  from reported l have trimmed: "trim (codeUnitsOf ?p @ [0x00A0, 0x000A]) = codeUnitsOf ?p"
    by simp
  from both[THEN conjunct1] run star read trimmed show ?thesis by (simp only: simp_thms)
qed

section \<open>Lemmas: the earlier revision of the engine\<close>

lemma isGatewayHealthy_legacy_eq:
  "isGatewayHealthy_legacy P h =
     (case containerFetch_result P h of
        Never \<Rightarrow> None
      | Settles d r \<Rightarrow>
          Some (Inr (case r of Inr code \<Rightarrow> 0 < code | Inl e \<Rightarrow> False),
                h @ [ContainerFetch (MOLTBOT_PORT P)]))"
  by (auto simp: isGatewayHealthy_legacy_def io_defs split: fetch_result.splits sum.splits)

lemma isGatewayHealthy_legacy_result:
  assumes "isGatewayHealthy_legacy P h = Some y"
  shows "\<exists>healthy. y = (Inr healthy, h @ [ContainerFetch (MOLTBOT_PORT P)])"
  using assms by (auto simp: isGatewayHealthy_legacy_eq split: fetch_result.splits)

lemma ensure_healthy_legacy_outcome:
  assumes "ensure_healthy_legacy P s h = (r, s', h')"
  shows "r = Inr () \<and> gatewayReady s' \<and> prefix h h'"
  using assms
  by (auto simp: ensure_healthy_legacy_def findExistingMoltbotProcess_def perform_def Let_def
           split: option.splits)

lemma ensure_legacy_outcome:
  assumes "ensureGatewayRunningLogic_legacy P s h = Some (r, s', h')"
  shows "prefix h h' \<and> (case r of Inr u \<Rightarrow> gatewayReady s' | Inl e \<Rightarrow> \<not> gatewayReady s')"
proof (cases "gatewayReady s")
  case True
  with assms show ?thesis by (auto simp: ensureGatewayRunningLogic_legacy_def)
next
  case notReady: False
  from assms notReady obtain y where probe: "isGatewayHealthy_legacy P h = Some y"
    by (cases "isGatewayHealthy_legacy P h") (simp_all add: ensureGatewayRunningLogic_legacy_def)
  from isGatewayHealthy_legacy_result[OF this] obtain healthy where
    y: "y = (Inr healthy, h @ [ContainerFetch (MOLTBOT_PORT P)])" by blast
  let ?h1 = "h @ [ContainerFetch (MOLTBOT_PORT P)]"
  show ?thesis
  proof (cases healthy)
    case True
    with assms notReady probe y have "ensure_healthy_legacy P s ?h1 = (r, s', h')"
      by (simp add: ensureGatewayRunningLogic_legacy_def)
    from ensure_healthy_legacy_outcome[OF this] have "r = Inr ()" "gatewayReady s'" "prefix ?h1 h'"
      by simp_all
    then show ?thesis using append_prefixD by auto
  next
    case False
    with assms notReady probe y
    have "ensure_existing P (\<lambda>s k. Some (ensure_start P s k)) s ?h1 = Some (r, s', h')"
      by (simp add: ensureGatewayRunningLogic_legacy_def)
    then have "attemptOutcome P s ?h1 (r, s', h')"
      by (rule attemptOutcome_existing[rotated]) (simp add: attemptOutcome_start)
    then have "attemptOutcome P s h (r, s', h')"
      by (rule attemptOutcome_later) simp_all
    with notReady show ?thesis by (auto simp: attemptOutcome_def split: sum.splits)
  qed
qed




section \<open>Claims about the fast path\<close>

text \<open>
  C6. For every state with \<open>gatewayReady = true\<close>, on every platform and in both
  revisions of the engine, \<open>ensure\<close> returns successfully with the state unchanged in
  every field and the history unchanged, that is, without any call of an external
  capability; the response reports the cached state, for a call that finds the lock
  slot empty and for a call that has awaited any number of fulfilled promises. Every
  successful \<open>ensure\<close> leaves \<open>gatewayReady = true\<close>, so an \<open>ensure\<close> that runs after a
  successful one, whatever the platform does by then and whatever was called in
  between, takes this fast path.
\<close>

theorem ensure_fast_path_idempotent:
  "(gatewayReady s \<longrightarrow>
      ensureGatewayRunningLogic P s h = Some (Inr (), s, h) \<and>
      ensureGatewayRunningLogic_legacy P s h = Some (Inr (), s, h) \<and>
      handleEnsure P (map Inr fulfilled) s h =
        Some (\<lparr>status = 200, body = LifecycleOk True (gatewayProcessId s)\<rparr>, s, h)) \<and>
   (ensureGatewayRunningLogic P s h = Some (Inr u, s', h') \<longrightarrow>
      gatewayReady s' \<and> ensureGatewayRunningLogic Q s' k = Some (Inr (), s', k)) \<and>
   (ensureGatewayRunningLogic_legacy P s h = Some (Inr u, s', h') \<longrightarrow>
      gatewayReady s' \<and> ensureGatewayRunningLogic_legacy Q s' k = Some (Inr (), s', k))"
proof (intro conjI impI)
  assume "gatewayReady s"
  then show "ensureGatewayRunningLogic P s h = Some (Inr (), s, h)"
    and "ensureGatewayRunningLogic_legacy P s h = Some (Inr (), s, h)"
    and "handleEnsure P (map Inr fulfilled) s h =
        Some (\<lparr>status = 200, body = LifecycleOk True (gatewayProcessId s)\<rparr>, s, h)"
    by (simp_all add: ensureGatewayRunningLogic_def ensureGatewayRunningLogic_legacy_def
          handleEnsure_def respond_def runWithLock_eq rejection_fulfilled)
next
  assume "ensureGatewayRunningLogic P s h = Some (Inr u, s', h')"
  from ensure_success[OF this] show "gatewayReady s'" by simp
  then show "ensureGatewayRunningLogic Q s' k = Some (Inr (), s', k)"
    by (simp add: ensureGatewayRunningLogic_def)
next
  assume "ensureGatewayRunningLogic_legacy P s h = Some (Inr u, s', h')"
  from ensure_legacy_outcome[OF this] show "gatewayReady s'" by simp
  then show "ensureGatewayRunningLogic_legacy Q s' k = Some (Inr (), s', k)"
    by (simp add: ensureGatewayRunningLogic_legacy_def)
qed

theorem ensure_fast_path_idempotent_witness:
  "gatewayReady readyState \<and>
   ensureGatewayRunningLogic kill_raises_platform readyState [] = Some (Inr (), readyState, []) \<and>
   ensureGatewayRunningLogic cold_platform initialState [] =
     Some (Inr (),
           \<lparr>gatewayProcessId = Some ''proc-1'', lastGatewayStartAttempt = 5000,
            gatewayReady = True, lastHealthCheck = 7000\<rparr>,
           [ContainerFetch 18789, FindExistingMoltbotProcess, ContainerFetch 18789, MountR2Storage,
            StartProcess ''/usr/local/bin/start-moltbot.sh'' None, WaitForPort ''proc-1'' 18789 180000]) \<and>
   ensureGatewayRunningLogic kill_raises_platform
       \<lparr>gatewayProcessId = Some ''proc-1'', lastGatewayStartAttempt = 5000,
        gatewayReady = True, lastHealthCheck = 7000\<rparr>
       [ContainerFetch 18789, FindExistingMoltbotProcess, ContainerFetch 18789, MountR2Storage,
        StartProcess ''/usr/local/bin/start-moltbot.sh'' None, WaitForPort ''proc-1'' 18789 180000] =
     Some (Inr (),
           \<lparr>gatewayProcessId = Some ''proc-1'', lastGatewayStartAttempt = 5000,
            gatewayReady = True, lastHealthCheck = 7000\<rparr>,
           [ContainerFetch 18789, FindExistingMoltbotProcess, ContainerFetch 18789, MountR2Storage,
            StartProcess ''/usr/local/bin/start-moltbot.sh'' None, WaitForPort ''proc-1'' 18789 180000]) \<and>
   ensureGatewayRunningLogic_legacy cold_platform initialState [] =
     Some (Inr (),
           \<lparr>gatewayProcessId = Some ''proc-1'', lastGatewayStartAttempt = 4000,
            gatewayReady = True, lastHealthCheck = 6000\<rparr>,
           [ContainerFetch 18789, FindExistingMoltbotProcess, MountR2Storage,
            StartProcess ''/usr/local/bin/start-moltbot.sh'' None, WaitForPort ''proc-1'' 18789 180000]) \<and>
   ensureGatewayRunningLogic_legacy kill_raises_platform
       \<lparr>gatewayProcessId = Some ''proc-1'', lastGatewayStartAttempt = 4000,
        gatewayReady = True, lastHealthCheck = 6000\<rparr> [] =
     Some (Inr (),
           \<lparr>gatewayProcessId = Some ''proc-1'', lastGatewayStartAttempt = 4000,
            gatewayReady = True, lastHealthCheck = 6000\<rparr>, [])"
proof -
  have ready: "gatewayReady readyState" by (simp add: readyState_def)
  have cold: "ensureGatewayRunningLogic cold_platform initialState [] =
     Some (Inr (),
           \<lparr>gatewayProcessId = Some ''proc-1'', lastGatewayStartAttempt = 5000,
            gatewayReady = True, lastHealthCheck = 7000\<rparr>,
           [ContainerFetch 18789, FindExistingMoltbotProcess, ContainerFetch 18789, MountR2Storage,
            StartProcess ''/usr/local/bin/start-moltbot.sh'' None, WaitForPort ''proc-1'' 18789 180000])"
    by (simp add: engine_defs scenario_defs io_defs call_defs)
  have legacy: "ensureGatewayRunningLogic_legacy cold_platform initialState [] =
     Some (Inr (),
           \<lparr>gatewayProcessId = Some ''proc-1'', lastGatewayStartAttempt = 4000,
            gatewayReady = True, lastHealthCheck = 6000\<rparr>,
           [ContainerFetch 18789, FindExistingMoltbotProcess, MountR2Storage,
            StartProcess ''/usr/local/bin/start-moltbot.sh'' None, WaitForPort ''proc-1'' 18789 180000])"
    by (simp add: ensureGatewayRunningLogic_legacy_def isGatewayHealthy_legacy_def
          engine_defs scenario_defs io_defs call_defs)
  note T = ensure_fast_path_idempotent
  from T[of readyState kill_raises_platform "[]", THEN conjunct1] ready
  have a: "ensureGatewayRunningLogic kill_raises_platform readyState [] = Some (Inr (), readyState, [])"
    by simp
  from T[of initialState cold_platform "[]", THEN conjunct2, THEN conjunct1, rule_format, OF cold]
  have b: "ensureGatewayRunningLogic kill_raises_platform
       \<lparr>gatewayProcessId = Some ''proc-1'', lastGatewayStartAttempt = 5000,
        gatewayReady = True, lastHealthCheck = 7000\<rparr>
       [ContainerFetch 18789, FindExistingMoltbotProcess, ContainerFetch 18789, MountR2Storage,
        StartProcess ''/usr/local/bin/start-moltbot.sh'' None, WaitForPort ''proc-1'' 18789 180000] =
     Some (Inr (),
           \<lparr>gatewayProcessId = Some ''proc-1'', lastGatewayStartAttempt = 5000,
            gatewayReady = True, lastHealthCheck = 7000\<rparr>,
           [ContainerFetch 18789, FindExistingMoltbotProcess, ContainerFetch 18789, MountR2Storage,
            StartProcess ''/usr/local/bin/start-moltbot.sh'' None, WaitForPort ''proc-1'' 18789 180000])"
    by (rule conjunct2)
  from T[of initialState cold_platform "[]", THEN conjunct2, THEN conjunct2, rule_format, OF legacy]
  have c: "ensureGatewayRunningLogic_legacy kill_raises_platform
       \<lparr>gatewayProcessId = Some ''proc-1'', lastGatewayStartAttempt = 4000,
        gatewayReady = True, lastHealthCheck = 6000\<rparr> [] =
     Some (Inr (),
           \<lparr>gatewayProcessId = Some ''proc-1'', lastGatewayStartAttempt = 4000,
            gatewayReady = True, lastHealthCheck = 6000\<rparr>, [])"
    by (rule conjunct2)
  from ready a cold b legacy c show ?thesis by (intro conjI)
qed

section \<open>Claims about restart and stop\<close>

lemma stopCommand_literal: "stopCommand = ''clawdbot gateway stop --url ws://localhost:18789''"
  by (simp add: stopCommand_def GATEWAY_WS_URL_def)




lemmas restart_eval = restartGatewayLogic_def stopGateway_def stopGateway_graceful_def
  stopGateway_forceKill_def stopGateway_fallback_def stopCommand_def GATEWAY_WS_URL_def
  STOP_GRACEFUL_TIMEOUT_MS_def clearLockFiles_def GATEWAY_LOCK_PATHS_def CLAWDBOT_DATA_DIR_def
  lockFileReported_def trim_def isWhiteSpace_def codeUnitsOf_def respondsHealthy_def
  waitForPortFree_unhealthy



lemma restart_returns:
  assumes "restartGatewayLogic P s h = Some out"
  shows "\<exists>h3. prefix h h3 \<and>
           ensureGatewayRunningLogic P (s\<lparr>gatewayProcessId := None, gatewayReady := False\<rparr>) h3 = Some out"
proof -
  from restart_unfold[of P s h] obtain stopped cleared where
    unfold: "restartGatewayLogic P s h =
       (case waitForPortFree P ((h @ StartProcess stopCommand None # stopped) @
                StartProcess (lockTestCommand (hd GATEWAY_LOCK_PATHS)) None # cleared) of
          None \<Rightarrow> None
        | Some (r, h3) \<Rightarrow>
            ensureGatewayRunningLogic P (s\<lparr>gatewayProcessId := None, gatewayReady := False\<rparr>) h3)"
    by blast
  define h2 where "h2 = (h @ StartProcess stopCommand None # stopped) @
                StartProcess (lockTestCommand (hd GATEWAY_LOCK_PATHS)) None # cleared"
  from assms unfold obtain y where wait: "waitForPortFree P h2 = Some y"
    unfolding h2_def[symmetric] by (cases "waitForPortFree P h2") simp_all
  from waitForPortFree_result[OF wait] obtain w where
    y: "y = (Inr (), h2 @ ContainerFetch (MOLTBOT_PORT P) # w)" by blast
  define h3 where "h3 = h2 @ ContainerFetch (MOLTBOT_PORT P) # w"
  have ens: "ensureGatewayRunningLogic P (s\<lparr>gatewayProcessId := None, gatewayReady := False\<rparr>) h3 = Some out"
    using assms unfold wait y unfolding h2_def[symmetric] h3_def[symmetric] by simp
  have "prefix h h3" unfolding h3_def h2_def by simp
  with ens show ?thesis by blast
qed

text \<open>
  C8. On every platform \<open>stopGateway\<close> returns without throwing, whatever the outcome of
  each layer: the graceful stop command is started; then, when a non-empty process id
  is known, the processes are listed (and the listed live process is killed); then the
  search by signature runs, and the process it finds is killed. A layer that raises
  only ends that layer. Within \<open>restart\<close>, for every platform, also one whose \<open>kill\<close>
  raises, the lock file removal and the wait for the port follow the stop and \<open>restart\<close>
  continues with Ensure; an error returned by \<open>restart\<close> is an error of that Ensure.
\<close>

theorem stop_best_effort:
  "(\<exists>graceful forced.
      stopGateway P processId h =
        (Inr (), (h @ StartProcess ''clawdbot gateway stop --url ws://localhost:18789'' None # graceful) @
           forced @ FindExistingMoltbotProcess #
           (case findExistingMoltbotProcess_result P
                   ((h @ StartProcess ''clawdbot gateway stop --url ws://localhost:18789'' None # graceful) @ forced) of
              None \<Rightarrow> [] | Some ex \<Rightarrow> [Kill (proc_id ex)])) \<and>
      (if processId = None \<or> processId = Some [] then forced = []
       else forced = [ListProcesses] \<or> forced = [ListProcesses, Kill (the processId)])) \<and>
   (\<exists>stopped cleared.
      stopGateway P (gatewayProcessId s) h = (Inr (), h @ stopped) \<and>
      clearLockFiles P (h @ stopped) =
        (Inr (), (h @ stopped) @ StartProcess (lockTestCommand ''/tmp/clawdbot-gateway.lock'') None # cleared) \<and>
      restartGatewayLogic P s h =
        (case waitForPortFree P
                ((h @ stopped) @ StartProcess (lockTestCommand ''/tmp/clawdbot-gateway.lock'') None # cleared) of
           None \<Rightarrow> None
         | Some (r, h3) \<Rightarrow>
             ensureGatewayRunningLogic P (s\<lparr>gatewayProcessId := None, gatewayReady := False\<rparr>) h3)) \<and>
   (restartGatewayLogic P s h = Some (Inl e, s', h') \<longrightarrow>
      (\<exists>h3. prefix h h3 \<and>
         ensureGatewayRunningLogic P (s\<lparr>gatewayProcessId := None, gatewayReady := False\<rparr>) h3 =
           Some (Inl e, s', h')))"
proof (intro conjI impI)
  from stopGateway_layers[of P processId h]
  show "\<exists>graceful forced.
      stopGateway P processId h =
        (Inr (), (h @ StartProcess ''clawdbot gateway stop --url ws://localhost:18789'' None # graceful) @
           forced @ FindExistingMoltbotProcess #
           (case findExistingMoltbotProcess_result P
                   ((h @ StartProcess ''clawdbot gateway stop --url ws://localhost:18789'' None # graceful) @ forced) of
              None \<Rightarrow> [] | Some ex \<Rightarrow> [Kill (proc_id ex)])) \<and>
      (if processId = None \<or> processId = Some [] then forced = []
       else forced = [ListProcesses] \<or> forced = [ListProcesses, Kill (the processId)])"
    by (simp only: stopCommand_literal)
next
  have first: "hd GATEWAY_LOCK_PATHS = ''/tmp/clawdbot-gateway.lock''"
    by (simp add: GATEWAY_LOCK_PATHS_def)
  from restart_unfold[of P s h] obtain stopped cleared where
    "stopGateway P (gatewayProcessId s) h = (Inr (), h @ StartProcess stopCommand None # stopped)"
    "clearLockFiles P (h @ StartProcess stopCommand None # stopped) =
       (Inr (), (h @ StartProcess stopCommand None # stopped) @
                StartProcess (lockTestCommand ''/tmp/clawdbot-gateway.lock'') None # cleared)"
    "restartGatewayLogic P s h =
       (case waitForPortFree P ((h @ StartProcess stopCommand None # stopped) @
                StartProcess (lockTestCommand ''/tmp/clawdbot-gateway.lock'') None # cleared) of
          None \<Rightarrow> None
        | Some (r, h3) \<Rightarrow>
            ensureGatewayRunningLogic P (s\<lparr>gatewayProcessId := None, gatewayReady := False\<rparr>) h3)"
    unfolding first by blast
  then show "\<exists>stopped cleared.
      stopGateway P (gatewayProcessId s) h = (Inr (), h @ stopped) \<and>
      clearLockFiles P (h @ stopped) =
        (Inr (), (h @ stopped) @ StartProcess (lockTestCommand ''/tmp/clawdbot-gateway.lock'') None # cleared) \<and>
      restartGatewayLogic P s h =
        (case waitForPortFree P
                ((h @ stopped) @ StartProcess (lockTestCommand ''/tmp/clawdbot-gateway.lock'') None # cleared) of
           None \<Rightarrow> None
         | Some (r, h3) \<Rightarrow>
             ensureGatewayRunningLogic P (s\<lparr>gatewayProcessId := None, gatewayReady := False\<rparr>) h3)"
    by (intro exI[of _ "StartProcess stopCommand None # stopped"] exI[of _ cleared] conjI)
next
  assume run: "restartGatewayLogic P s h = Some (Inl e, s', h')"
  then show "\<exists>h3. prefix h h3 \<and>
         ensureGatewayRunningLogic P (s\<lparr>gatewayProcessId := None, gatewayReady := False\<rparr>) h3 =
           Some (Inl e, s', h')"
    by (rule restart_returns)
qed

theorem stop_best_effort_witness:
  "kill_result kill_raises_platform [] ''proc-0'' = Inl (Error ''kill failed'') \<and>
   stopGateway kill_raises_platform (Some ''proc-0'') [] =
     (Inr (),
      [StartProcess ''clawdbot gateway stop --url ws://localhost:18789'' None,
       WaitForProcess ''proc-1'' 10000, GetLogs ''proc-1'',
       ListProcesses, Kill ''proc-0'',
       FindExistingMoltbotProcess, Kill ''proc-0'']) \<and>
   restartGatewayLogic kill_raises_platform readyState [] =
     Some (Inl (Error ''port 18789 not ready within 180000 ms''),
           \<lparr>gatewayProcessId = Some ''proc-1'', lastGatewayStartAttempt = 21000,
            gatewayReady = False, lastHealthCheck = 200\<rparr>,
           [StartProcess ''clawdbot gateway stop --url ws://localhost:18789'' None,
            WaitForProcess ''proc-1'' 10000, GetLogs ''proc-1'',
            ListProcesses, Kill ''proc-0'',
            FindExistingMoltbotProcess, Kill ''proc-0'',
            StartProcess (lockTestCommand ''/tmp/clawdbot-gateway.lock'') None,
            WaitForProcess ''proc-1'' 3000, GetLogs ''proc-1'',
            StartProcess (lockTestCommand ''/root/.clawdbot/gateway.lock'') None,
            WaitForProcess ''proc-1'' 3000, GetLogs ''proc-1'',
            ContainerFetch 18789,
            ContainerFetch 18789, FindExistingMoltbotProcess, WaitForPort ''proc-0'' 18789 180000,
            Kill ''proc-0'', ContainerFetch 18789, MountR2Storage,
            StartProcess ''/usr/local/bin/start-moltbot.sh'' None,
            WaitForPort ''proc-1'' 18789 180000, GetLogs ''proc-1'']) \<and>
   (\<exists>h3. ensureGatewayRunningLogic kill_raises_platform
            (readyState\<lparr>gatewayProcessId := None, gatewayReady := False\<rparr>) h3 =
          Some (Inl (Error ''port 18789 not ready within 180000 ms''),
                \<lparr>gatewayProcessId = Some ''proc-1'', lastGatewayStartAttempt = 21000,
                 gatewayReady = False, lastHealthCheck = 200\<rparr>,
                [StartProcess ''clawdbot gateway stop --url ws://localhost:18789'' None,
                 WaitForProcess ''proc-1'' 10000, GetLogs ''proc-1'',
                 ListProcesses, Kill ''proc-0'',
                 FindExistingMoltbotProcess, Kill ''proc-0'',
                 StartProcess (lockTestCommand ''/tmp/clawdbot-gateway.lock'') None,
                 WaitForProcess ''proc-1'' 3000, GetLogs ''proc-1'',
                 StartProcess (lockTestCommand ''/root/.clawdbot/gateway.lock'') None,
                 WaitForProcess ''proc-1'' 3000, GetLogs ''proc-1'',
                 ContainerFetch 18789,
                 ContainerFetch 18789, FindExistingMoltbotProcess, WaitForPort ''proc-0'' 18789 180000,
                 Kill ''proc-0'', ContainerFetch 18789, MountR2Storage,
                 StartProcess ''/usr/local/bin/start-moltbot.sh'' None,
                 WaitForPort ''proc-1'' 18789 180000, GetLogs ''proc-1'']))"
proof -
  have kill: "kill_result kill_raises_platform [] ''proc-0'' = Inl (Error ''kill failed'')"
    by (simp add: scenario_defs)
  have stop: "stopGateway kill_raises_platform (Some ''proc-0'') [] =
     (Inr (),
      [StartProcess ''clawdbot gateway stop --url ws://localhost:18789'' None,
       WaitForProcess ''proc-1'' 10000, GetLogs ''proc-1'',
       ListProcesses, Kill ''proc-0'',
       FindExistingMoltbotProcess, Kill ''proc-0''])"
    by (simp add: restart_eval scenario_defs io_defs call_defs)
  have run: "restartGatewayLogic kill_raises_platform readyState [] =
     Some (Inl (Error ''port 18789 not ready within 180000 ms''),
           \<lparr>gatewayProcessId = Some ''proc-1'', lastGatewayStartAttempt = 21000,
            gatewayReady = False, lastHealthCheck = 200\<rparr>,
           [StartProcess ''clawdbot gateway stop --url ws://localhost:18789'' None,
            WaitForProcess ''proc-1'' 10000, GetLogs ''proc-1'',
            ListProcesses, Kill ''proc-0'',
            FindExistingMoltbotProcess, Kill ''proc-0'',
            StartProcess (lockTestCommand ''/tmp/clawdbot-gateway.lock'') None,
            WaitForProcess ''proc-1'' 3000, GetLogs ''proc-1'',
            StartProcess (lockTestCommand ''/root/.clawdbot/gateway.lock'') None,
            WaitForProcess ''proc-1'' 3000, GetLogs ''proc-1'',
            ContainerFetch 18789,
            ContainerFetch 18789, FindExistingMoltbotProcess, WaitForPort ''proc-0'' 18789 180000,
            Kill ''proc-0'', ContainerFetch 18789, MountR2Storage,
            StartProcess ''/usr/local/bin/start-moltbot.sh'' None,
            WaitForPort ''proc-1'' 18789 180000, GetLogs ''proc-1''])"
    by (simp add: restart_eval engine_defs scenario_defs io_defs call_defs)
  from stop_best_effort[of kill_raises_platform "Some ''proc-0''" "[]" readyState,
         THEN conjunct2, THEN conjunct2, rule_format, OF run]
  have "\<exists>h3. ensureGatewayRunningLogic kill_raises_platform
            (readyState\<lparr>gatewayProcessId := None, gatewayReady := False\<rparr>) h3 =
          Some (Inl (Error ''port 18789 not ready within 180000 ms''),
                \<lparr>gatewayProcessId = Some ''proc-1'', lastGatewayStartAttempt = 21000,
                 gatewayReady = False, lastHealthCheck = 200\<rparr>,
                [StartProcess ''clawdbot gateway stop --url ws://localhost:18789'' None,
                 WaitForProcess ''proc-1'' 10000, GetLogs ''proc-1'',
                 ListProcesses, Kill ''proc-0'',
                 FindExistingMoltbotProcess, Kill ''proc-0'',
                 StartProcess (lockTestCommand ''/tmp/clawdbot-gateway.lock'') None,
                 WaitForProcess ''proc-1'' 3000, GetLogs ''proc-1'',
                 StartProcess (lockTestCommand ''/root/.clawdbot/gateway.lock'') None,
                 WaitForProcess ''proc-1'' 3000, GetLogs ''proc-1'',
                 ContainerFetch 18789,
                 ContainerFetch 18789, FindExistingMoltbotProcess, WaitForPort ''proc-0'' 18789 180000,
                 Kill ''proc-0'', ContainerFetch 18789, MountR2Storage,
                 StartProcess ''/usr/local/bin/start-moltbot.sh'' None,
                 WaitForPort ''proc-1'' 18789 180000, GetLogs ''proc-1''])"
    by (elim exE conjE, intro exI)
  with kill stop run show ?thesis by (intro conjI)
qed

section \<open>Claims about the start lock\<close>

lemma lock_inv_init: "lock_inv lock_init"
  by (simp add: lock_inv_def lock_init_def)

lemma lock_inv_enter:
  assumes "lock_inv L" and "phase L i \<noteq> Running"
    and "\<And>k. phase L k \<noteq> Awaiting i"
  shows "lock_inv (enter i L)"
proof -
  from assms(1) have slot: "\<And>k. (startLock L = Some k) = (phase L k = Running)"
    and waits: "\<And>k j. phase L k = Awaiting j \<Longrightarrow>
      phase L j = Running \<or> phase L j = Fulfilled \<or> phase L j = Rejected"
    by (simp_all add: lock_inv_def)
  show ?thesis
  proof (cases "startLock L")
    case None
    then have e: "enter i L = L\<lparr>startLock := Some i, phase := (phase L)(i := Running)\<rparr>"
      by (simp add: enter_def)
    from None slot have idle: "\<And>k. phase L k \<noteq> Running" by simp
    show ?thesis
      unfolding e lock_inv_def
    proof (intro conjI allI impI)
      fix k
      show "(startLock (L\<lparr>startLock := Some i, phase := (phase L)(i := Running)\<rparr>) = Some k) =
            (phase (L\<lparr>startLock := Some i, phase := (phase L)(i := Running)\<rparr>) k = Running)"
        using idle[of k] by auto
    next
      fix k j
      assume "phase (L\<lparr>startLock := Some i, phase := (phase L)(i := Running)\<rparr>) k = Awaiting j"
      then have "phase L k = Awaiting j" by (simp split: if_splits)
      from waits[OF this]
      show "phase (L\<lparr>startLock := Some i, phase := (phase L)(i := Running)\<rparr>) j = Running \<or>
            phase (L\<lparr>startLock := Some i, phase := (phase L)(i := Running)\<rparr>) j = Fulfilled \<or>
            phase (L\<lparr>startLock := Some i, phase := (phase L)(i := Running)\<rparr>) j = Rejected"
        by auto
    qed
  next
    case (Some h)
    then have e: "enter i L = L\<lparr>phase := (phase L)(i := Awaiting h)\<rparr>"
      by (simp add: enter_def)
    from Some slot have running: "phase L h = Running" by simp
    with assms(2) have neq: "h \<noteq> i" by auto
    show ?thesis
      unfolding e lock_inv_def
    proof (intro conjI allI impI)
      fix k
      show "(startLock (L\<lparr>phase := (phase L)(i := Awaiting h)\<rparr>) = Some k) =
            (phase (L\<lparr>phase := (phase L)(i := Awaiting h)\<rparr>) k = Running)"
        using slot[of k] assms(2) by auto
    next
      fix k j
      assume a: "phase (L\<lparr>phase := (phase L)(i := Awaiting h)\<rparr>) k = Awaiting j"
      show "phase (L\<lparr>phase := (phase L)(i := Awaiting h)\<rparr>) j = Running \<or>
            phase (L\<lparr>phase := (phase L)(i := Awaiting h)\<rparr>) j = Fulfilled \<or>
            phase (L\<lparr>phase := (phase L)(i := Awaiting h)\<rparr>) j = Rejected"
      proof (cases "k = i")
        case True
        with a have "j = h" by simp
        with running neq show ?thesis by simp
      next
        case False
        with a have w: "phase L k = Awaiting j" by simp
        have "j \<noteq> i"
        proof
          assume "j = i"
          with w have "phase L k = Awaiting i" by simp
          with assms(3)[of k] show False by simp
        qed
        with waits[OF w] show ?thesis by simp
      qed
    qed
  qed
qed

lemma lock_inv_not_awaited:
  assumes "lock_inv L" and "phase L i = NotCalled \<or> (\<exists>j. phase L i = Awaiting j)"
  shows "\<forall>k. phase L k \<noteq> Awaiting i"
proof (intro allI notI)
  fix k assume "phase L k = Awaiting i"
  with assms(1) have "phase L i = Running \<or> phase L i = Fulfilled \<or> phase L i = Rejected"
    by (auto simp: lock_inv_def)
  with assms(2) show False by auto
qed

lemma lock_inv_settle:
  assumes "lock_inv L" and "phase L i = Running" and "x = Fulfilled \<or> x = Rejected"
  shows "lock_inv (L\<lparr>startLock := None, phase := (phase L)(i := x)\<rparr>)"
proof -
  from assms(1) have slot: "\<And>k. (startLock L = Some k) = (phase L k = Running)"
    and waits: "\<And>k j. phase L k = Awaiting j \<Longrightarrow>
      phase L j = Running \<or> phase L j = Fulfilled \<or> phase L j = Rejected"
    by (simp_all add: lock_inv_def)
  from slot[of i] assms(2) have held: "startLock L = Some i" by simp
  have only: "k = i" if "phase L k = Running" for k
    using slot[of k] that held by simp
  show ?thesis
    unfolding lock_inv_def
  proof (intro conjI allI impI)
    fix k
    show "(startLock (L\<lparr>startLock := None, phase := (phase L)(i := x)\<rparr>) = Some k) =
          (phase (L\<lparr>startLock := None, phase := (phase L)(i := x)\<rparr>) k = Running)"
      using only[of k] assms(3) by auto
  next
    fix k j
    assume a: "phase (L\<lparr>startLock := None, phase := (phase L)(i := x)\<rparr>) k = Awaiting j"
    with assms(3) have "phase L k = Awaiting j" by (auto split: if_splits)
    from waits[OF this] assms(3)
    show "phase (L\<lparr>startLock := None, phase := (phase L)(i := x)\<rparr>) j = Running \<or>
          phase (L\<lparr>startLock := None, phase := (phase L)(i := x)\<rparr>) j = Fulfilled \<or>
          phase (L\<lparr>startLock := None, phase := (phase L)(i := x)\<rparr>) j = Rejected"
      by auto
  qed
qed

lemma lock_inv_reject:
  assumes "lock_inv L" and "phase L i = Awaiting j"
  shows "lock_inv (L\<lparr>phase := (phase L)(i := Rejected)\<rparr>)"
proof -
  from assms(1) have slot: "\<And>k. (startLock L = Some k) = (phase L k = Running)"
    and waits: "\<And>k j. phase L k = Awaiting j \<Longrightarrow>
      phase L j = Running \<or> phase L j = Fulfilled \<or> phase L j = Rejected"
    by (simp_all add: lock_inv_def)
  show ?thesis
    unfolding lock_inv_def
  proof (intro conjI allI impI)
    fix k
    show "(startLock (L\<lparr>phase := (phase L)(i := Rejected)\<rparr>) = Some k) =
          (phase (L\<lparr>phase := (phase L)(i := Rejected)\<rparr>) k = Running)"
      using slot[of k] assms(2) by auto
  next
    fix k m
    assume a: "phase (L\<lparr>phase := (phase L)(i := Rejected)\<rparr>) k = Awaiting m"
    then have "phase L k = Awaiting m" by (auto split: if_splits)
    from waits[OF this]
    show "phase (L\<lparr>phase := (phase L)(i := Rejected)\<rparr>) m = Running \<or>
          phase (L\<lparr>phase := (phase L)(i := Rejected)\<rparr>) m = Fulfilled \<or>
          phase (L\<lparr>phase := (phase L)(i := Rejected)\<rparr>) m = Rejected"
      by auto
  qed
qed

lemma lock_inv_step:
  assumes "lock_inv L"
  shows "lock_inv (step e L)"
proof (cases e)
  case (Call i)
  show ?thesis
  proof (cases "phase L i = NotCalled")
    case True
    then have "phase L i \<noteq> Running" by simp
    moreover have "\<And>k. phase L k \<noteq> Awaiting i"
      using lock_inv_not_awaited[OF assms] True by blast
    ultimately have "lock_inv (enter i L)" using assms by (intro lock_inv_enter)
    with True Call show ?thesis by simp
  next
    case False
    with Call assms show ?thesis by simp
  qed
next
  case (Settle i ok)
  show ?thesis
  proof (cases "phase L i = Running")
    case True
    have "lock_inv (L\<lparr>startLock := None, phase := (phase L)(i := if ok then Fulfilled else Rejected)\<rparr>)"
      using assms True by (rule lock_inv_settle) simp
    with True Settle show ?thesis by simp
  next
    case False
    with Settle assms show ?thesis by simp
  qed
next
  case (Resume i)
  show ?thesis
  proof (cases "phase L i")
    case (Awaiting j)
    have notAwaited: "\<And>k. phase L k \<noteq> Awaiting i"
      using lock_inv_not_awaited[OF assms] Awaiting by blast
    show ?thesis
    proof (cases "phase L j")
      case Fulfilled
      have "lock_inv (enter i L)"
        using assms Awaiting notAwaited by (intro lock_inv_enter) simp_all
      with Resume Awaiting Fulfilled show ?thesis by simp
    next
      case Rejected
      have "lock_inv (L\<lparr>phase := (phase L)(i := Rejected)\<rparr>)"
        using assms Awaiting by (rule lock_inv_reject)
      with Resume Awaiting Rejected show ?thesis by simp
    qed (use Resume Awaiting assms in simp_all)
  qed (use Resume assms in simp_all)
qed

lemma lock_inv_run: "lock_inv L \<Longrightarrow> lock_inv (run es L)"
  by (induction es arbitrary: L) (simp_all add: lock_inv_step)

text \<open>
  C9. In every state the lock can reach, whatever the order in which calls are issued,
  operations settle and suspended calls are resumed: at most one call is running its
  operation; the slot is empty exactly when no call is running, so it is never held by
  an operation that has finished or thrown; when the running operation settles, by
  returning or by throwing, the slot is cleared and no operation is running; a call
  issued while no operation is running starts its operation at once; and a suspended
  call awaits a promise that is running or has settled, so it is resumed once the
  operation it waits for is over.
\<close>

theorem runWithLock_mutual_exclusion:
  "L = run events lock_init \<Longrightarrow>
     (phase L i = Running \<and> phase L j = Running \<longrightarrow> i = j) \<and>
     (startLock L = None \<longleftrightarrow> (\<forall>k. phase L k \<noteq> Running)) \<and>
     (phase L i = Running \<longrightarrow>
        startLock (step (Settle i ok) L) = None \<and>
        (\<forall>k. phase (step (Settle i ok) L) k \<noteq> Running)) \<and>
     ((\<forall>k. phase L k \<noteq> Running) \<and> phase L i = NotCalled \<longrightarrow>
        phase (step (Call i) L) i = Running \<and> startLock (step (Call i) L) = Some i) \<and>
     (phase L i = Awaiting j \<longrightarrow>
        phase L j = Running \<or> phase L j = Fulfilled \<or> phase L j = Rejected)"
proof -
  assume "L = run events lock_init"
  then have inv: "lock_inv L" using lock_inv_run[OF lock_inv_init] by simp
  then have slot: "\<And>k. (startLock L = Some k) = (phase L k = Running)"
    and waits: "\<And>k j. phase L k = Awaiting j \<Longrightarrow>
      phase L j = Running \<or> phase L j = Fulfilled \<or> phase L j = Rejected"
    by (simp_all add: lock_inv_def)
  have one: "phase L i = Running \<and> phase L j = Running \<longrightarrow> i = j"
  proof
    assume "phase L i = Running \<and> phase L j = Running"
    with slot[of i] slot[of j] have "startLock L = Some i" "startLock L = Some j" by simp_all
    then show "i = j" by simp
  qed
  have empty: "startLock L = None \<longleftrightarrow> (\<forall>k. phase L k \<noteq> Running)"
  proof
    assume "startLock L = None"
    with slot show "\<forall>k. phase L k \<noteq> Running" by simp
  next
    assume idle: "\<forall>k. phase L k \<noteq> Running"
    show "startLock L = None"
    proof (cases "startLock L")
      case (Some k)
      with slot[of k] idle show ?thesis by simp
    qed simp
  qed
  have cleanup: "phase L i = Running \<longrightarrow>
        startLock (step (Settle i ok) L) = None \<and>
        (\<forall>k. phase (step (Settle i ok) L) k \<noteq> Running)"
  proof
    assume r: "phase L i = Running"
    with slot[of i] have held: "startLock L = Some i" by simp
    have only: "k = i" if "phase L k = Running" for k
      using slot[of k] that held by simp
    from r have e: "step (Settle i ok) L =
        L\<lparr>startLock := None, phase := (phase L)(i := if ok then Fulfilled else Rejected)\<rparr>"
      by simp
    show "startLock (step (Settle i ok) L) = None \<and>
        (\<forall>k. phase (step (Settle i ok) L) k \<noteq> Running)"
      unfolding e using only by auto
  qed
  have admit: "(\<forall>k. phase L k \<noteq> Running) \<and> phase L i = NotCalled \<longrightarrow>
        phase (step (Call i) L) i = Running \<and> startLock (step (Call i) L) = Some i"
  proof
    assume a: "(\<forall>k. phase L k \<noteq> Running) \<and> phase L i = NotCalled"
    with empty have "startLock L = None" by simp
    with a have "step (Call i) L = L\<lparr>startLock := Some i, phase := (phase L)(i := Running)\<rparr>"
      by (simp add: enter_def)
    then show "phase (step (Call i) L) i = Running \<and> startLock (step (Call i) L) = Some i"
      by simp
  qed
  have waiting: "phase L i = Awaiting j \<longrightarrow>
        phase L j = Running \<or> phase L j = Fulfilled \<or> phase L j = Rejected"
    using waits by (rule impI)
  from one empty cleanup admit waiting show ?thesis by (intro conjI)
qed

theorem runWithLock_mutual_exclusion_witness:
  "phase (run [Call 0, Call 1, Settle 0 False, Call 2] lock_init) 0 = Rejected \<and>
   phase (run [Call 0, Call 1, Settle 0 False, Call 2] lock_init) 1 = Awaiting 0 \<and>
   phase (run [Call 0, Call 1, Settle 0 False, Call 2] lock_init) 2 = Running \<and>
   phase (run [Call 0, Call 1, Settle 0 False, Call 2] lock_init) 3 = NotCalled \<and>
   startLock (run [Call 0, Call 1, Settle 0 False, Call 2] lock_init) = Some 2 \<and>
   startLock (step (Settle 2 False) (run [Call 0, Call 1, Settle 0 False, Call 2] lock_init)) = None \<and>
   phase (run [Call 0, Call 1, Settle 0 False, Call 2, Resume 1] lock_init) 1 = Rejected \<and>
   phase (run [Call 0, Call 1, Settle 0 False, Call 2, Settle 2 False, Call 3] lock_init) 3 = Running"
proof -
  define L where "L = run [Call 0, Call 1, Settle 0 False, Call 2] lock_init"
  have p: "phase L 0 = Rejected" "phase L 1 = Awaiting 0" "phase L 2 = Running" "phase L 3 = NotCalled"
    and s: "startLock L = Some 2"
    unfolding L_def by (simp_all add: lock_init_def enter_def)
  note T = runWithLock_mutual_exclusion[OF L_def, of 2 2 False]
  from T[THEN conjunct2, THEN conjunct2, THEN conjunct1, THEN mp, OF p(3), THEN conjunct1]
  have c: "startLock (step (Settle 2 False) L) = None" .
  have r: "phase (run [Call 0, Call 1, Settle 0 False, Call 2, Resume 1] lock_init) 1 = Rejected"
    by (simp add: lock_init_def enter_def)
  define M where "M = run [Call 0, Call 1, Settle 0 False, Call 2, Settle 2 False] lock_init"
  have m: "(\<forall>k. phase M k \<noteq> Running) \<and> phase M 3 = NotCalled"
    unfolding M_def by (simp add: lock_init_def enter_def)
  note U = runWithLock_mutual_exclusion[OF M_def, of 3 3 False]
  from U[THEN conjunct2, THEN conjunct2, THEN conjunct2, THEN conjunct1, THEN mp, OF m, THEN conjunct1]
  have "phase (step (Call 3) M) 3 = Running" .
  moreover have "step (Call 3) M = run [Call 0, Call 1, Settle 0 False, Call 2, Settle 2 False, Call 3] lock_init"
    unfolding M_def by simp
  ultimately have a: "phase (run [Call 0, Call 1, Settle 0 False, Call 2, Settle 2 False, Call 3] lock_init) 3 = Running"
    by simp
  from p s c r a show ?thesis unfolding L_def by (intro conjI)
qed

section \<open>Claims about the request boundary\<close>

lemma respond_status:
  assumes "respond r = Some (resp, s', h')"
  shows "status resp = 200 \<or> status resp = 503"
  using assms by (auto simp: respond_def split: option.splits sum.splits)

lemma requestPath_slashes: "requestPath (replicate n CHR ''/'') = ''ensure''"
proof -
  have "dropWhile (\<lambda>c. c = CHR ''/'') (replicate n CHR ''/'') = []"
    by (induction n) simp_all
  then show ?thesis by (simp add: requestPath_def)
qed

text \<open>
  C10. A request whose path is empty or consists only of slashes is dispatched to the
  ensure operation. With the path taken as \<open>fetch\<close> takes it (leading slashes removed,
  and \<open>ensure\<close> when nothing remains), the response has status 404 exactly when the
  path is none of \<open>ensure\<close>, \<open>restart\<close> and \<open>state\<close>; such a request is answered with
  the not-found body, at once, with the state and the history unchanged.
\<close>

theorem fetch_routing:
  "requestPath (replicate n CHR ''/'') = ''ensure'' \<and>
   fetch P awaited (replicate n CHR ''/'') s h = handleEnsure P awaited s h \<and>
   (fetch P awaited pathname s h = Some (resp, s', h') \<longrightarrow>
      (status resp = 404 \<longleftrightarrow> requestPath pathname \<notin> {''ensure'', ''restart'', ''state''})) \<and>
   (requestPath pathname \<notin> {''ensure'', ''restart'', ''state''} \<longrightarrow>
      fetch P awaited pathname s h = Some (\<lparr>status = 404, body = NotFound\<rparr>, s, h))"
proof (intro conjI impI)
  show "requestPath (replicate n CHR ''/'') = ''ensure''" by (rule requestPath_slashes)
  then show "fetch P awaited (replicate n CHR ''/'') s h = handleEnsure P awaited s h"
    by (simp add: fetch_def)
next
  assume run: "fetch P awaited pathname s h = Some (resp, s', h')"
  show "status resp = 404 \<longleftrightarrow> requestPath pathname \<notin> {''ensure'', ''restart'', ''state''}"
  proof (cases "requestPath pathname = ''ensure''")
    case True
    with run have "respond (runWithLock awaited (ensureGatewayRunningLogic P) s h) = Some (resp, s', h')"
      by (simp add: fetch_def handleEnsure_def)
    from respond_status[OF this] True show ?thesis by auto
  next
    case notEnsure: False
    show ?thesis
    proof (cases "requestPath pathname = ''restart''")
      case True
      with run have "respond (runWithLock awaited (restartGatewayLogic P) s h) = Some (resp, s', h')"
        by (simp add: fetch_def handleRestart_def)
      from respond_status[OF this] True show ?thesis by auto
    next
      case notRestart: False
      show ?thesis
      proof (cases "requestPath pathname = ''state''")
        case True
        with run have "resp = handleGetState s" by (auto simp: fetch_def)
        with True show ?thesis by (simp add: handleGetState_def)
      next
        case False
        with notEnsure notRestart run have "resp = \<lparr>status = 404, body = NotFound\<rparr>"
          by (auto simp: fetch_def)
        with False notEnsure notRestart show ?thesis by simp
      qed
    qed
  qed
next
  assume "requestPath pathname \<notin> {''ensure'', ''restart'', ''state''}"
  then show "fetch P awaited pathname s h = Some (\<lparr>status = 404, body = NotFound\<rparr>, s, h)"
    by (simp add: fetch_def)
qed

theorem fetch_routing_witness:
  "requestPath ''/'' = ''ensure'' \<and>
   requestPath [] = ''ensure'' \<and>
   fetch cold_platform [] ''/'' readyState [] =
     Some (\<lparr>status = 200, body = LifecycleOk True (Some ''proc-0'')\<rparr>, readyState, []) \<and>
   requestPath ''//state'' = ''state'' \<and>
   fetch cold_platform [] ''//state'' readyState [] =
     Some (\<lparr>status = 200, body = StateSnapshot True (Some ''proc-0'') (Some 100) (Some 200)\<rparr>,
           readyState, []) \<and>
   requestPath ''/ensure/'' = ''ensure/'' \<and>
   fetch cold_platform [] ''/ensure/'' readyState [] =
     Some (\<lparr>status = 404, body = NotFound\<rparr>, readyState, []) \<and>
   fetch cold_platform [] ''/status'' readyState [] =
     Some (\<lparr>status = 404, body = NotFound\<rparr>, readyState, []) \<and>
   (status \<lparr>status = 200, body = LifecycleOk True (Some ''proc-0'')\<rparr> = 404 \<longleftrightarrow>
      requestPath ''/'' \<notin> {''ensure'', ''restart'', ''state''})"
proof -
  have e: "fetch cold_platform [] ''/'' readyState [] =
     Some (\<lparr>status = 200, body = LifecycleOk True (Some ''proc-0'')\<rparr>, readyState, [])"
    by (simp add: fetch_def requestPath_def handleEnsure_def respond_def
          ensureGatewayRunningLogic_def readyState_def)
  have st: "fetch cold_platform [] ''//state'' readyState [] =
     Some (\<lparr>status = 200, body = StateSnapshot True (Some ''proc-0'') (Some 100) (Some 200)\<rparr>,
           readyState, [])"
    by (simp add: fetch_def requestPath_def handleGetState_def readyState_def)
  have p: "requestPath ''/'' = ''ensure''" "requestPath [] = ''ensure''"
    "requestPath ''//state'' = ''state''" "requestPath ''/ensure/'' = ''ensure/''"
    "requestPath ''/status'' = ''status''"
    by (simp_all add: requestPath_def)
  note T = fetch_routing[of 1 cold_platform "[]" readyState "[]"]
  have n1: "requestPath ''/ensure/'' \<notin> {''ensure'', ''restart'', ''state''}"
    and n2: "requestPath ''/status'' \<notin> {''ensure'', ''restart'', ''state''}"
    unfolding p by simp_all
  from T[of "''/ensure/''", THEN conjunct2, THEN conjunct2, THEN conjunct2, THEN mp, OF n1]
  have a: "fetch cold_platform [] ''/ensure/'' readyState [] =
     Some (\<lparr>status = 404, body = NotFound\<rparr>, readyState, [])" .
  from T[of "''/status''", THEN conjunct2, THEN conjunct2, THEN conjunct2, THEN mp, OF n2]
  have b: "fetch cold_platform [] ''/status'' readyState [] =
     Some (\<lparr>status = 404, body = NotFound\<rparr>, readyState, [])" .
  from T[of "''/''" "\<lparr>status = 200, body = LifecycleOk True (Some ''proc-0'')\<rparr>" readyState "[]",
         THEN conjunct2, THEN conjunct2, THEN conjunct1, THEN mp, OF e]
  have c: "status \<lparr>status = 200, body = LifecycleOk True (Some ''proc-0'')\<rparr> = 404 \<longleftrightarrow>
      requestPath ''/'' \<notin> {''ensure'', ''restart'', ''state''}" .
  from p e st a b c show ?thesis by (intro conjI)
qed

end
